theory Spec2Isabelle
  imports
    Main
    "HOL-Library.Word"
    "HOL-Library.Multiset"
    "HOL-Library.Char_ord"
    "HOL-Library.List_Lexorder"
    "HOL-Library.Product_Lexorder"
begin

section \<open>The CloudFormation template builder of Empire\<close>

text \<open>
  A shallow embedding of \<^verbatim>\<open>scheduler/cloudformation/template.go\<close>: the method
  \<^verbatim>\<open>EmpireTemplate.Build\<close>, which turns an application into a CloudFormation
  document (Parameters, Resources, Outputs), and \<^verbatim>\<open>ContainerDefinition\<close>,
  which turns one process into an ECS container definition.
\<close>

subsection \<open>Constants\<close>

definition ContainerPort :: int where
  "ContainerPort = 8080"

definition schemeInternal :: string where
  "schemeInternal = ''internal''"

definition schemeExternal :: string where
  "schemeExternal = ''internet-facing''"

definition defaultConnectionDrainingTimeout :: int where
  "defaultConnectionDrainingTimeout = 30"

definition defaultCNAMETTL :: int where
  "defaultCNAMETTL = 60"

text \<open>
  Modelled from the spec: the package \<^verbatim>\<open>bytesize\<close> is not among the sources. The
  spec gives the unit of the conversion as \<open>2^20\<close> bytes.
\<close>

definition MB :: "64 word" where
  "MB = 1048576"

subsection \<open>Inputs\<close>

text \<open>
  Modelled from the spec: the declarations of \<^verbatim>\<open>scheduler.App\<close>,
  \<^verbatim>\<open>scheduler.Process\<close> and \<^verbatim>\<open>scheduler.Exposure\<close> are not among the
  sources; the fields are the ones \<^verbatim>\<open>Build\<close> and \<^verbatim>\<open>ContainerDefinition\<close>
  read. The numeric fields are converted with \<^verbatim>\<open>int64(...)\<close> in the source, and are
  taken as Go's \<^verbatim>\<open>uint\<close> on a 64-bit platform. \<open>Image_String\<close> stands for the
  value of \<^verbatim>\<open>p.Image.String()\<close>. A Go map is a HOL map: it has no key order.
\<close>

datatype ExposureType = HTTPExposure | HTTPSExposure (Cert: string) | TCPExposure

record Exposure =
  External :: bool
  ExposureType :: ExposureType

record Process =
  Type :: string
  Image_String :: string
  Command :: "string list"
  Env :: "string \<rightharpoonup> string"
  Labels :: "string \<rightharpoonup> string"
  Exposure :: "Exposure option"
  Instances :: "64 word"
  MemoryLimit :: "64 word"
  CPUShares :: "64 word"
  Nproc :: "64 word"

record App =
  Name :: string
  Processes :: "Process list"

text \<open>
  \<^verbatim>\<open>route53.HostedZone\<close> and \<^verbatim>\<open>ecs.LogConfiguration\<close> belong to the AWS SDK.
  Of the hosted zone, \<^verbatim>\<open>Build\<close> dereferences the pointer fields \<^verbatim>\<open>Id\<close> and
  \<^verbatim>\<open>Name\<close>. The logging configuration is passed through unread and ends up in
  the document; it is the SDK's struct of a log driver (\<^verbatim>\<open>LogDriver *string\<close>) and
  the options of the driver (\<^verbatim>\<open>Options map[string]*string\<close>).
\<close>

record HostedZone =
  zone_Id :: "string option"
  zone_Name :: "string option"

record LogConfiguration =
  LogDriver :: "string option"
  Options :: "string \<rightharpoonup> string"

record EmpireTemplate =
  Cluster :: string
  HostedZone :: "HostedZone option"
  InternalSecurityGroupID :: string
  ExternalSecurityGroupID :: string
  InternalSubnetIDs :: "string list"
  ExternalSubnetIDs :: "string list"
  ServiceRole :: string
  CustomResourcesTopic :: string
  LogConfiguration :: "LogConfiguration option"

subsection \<open>The values a document is made of\<close>

text \<open>
  \<^verbatim>\<open>Build\<close> returns an \<^verbatim>\<open>interface{}\<close>: a tree of Go values. Each constructor
  of \<open>val\<close> is one dynamic type that occurs in the tree:
  \<^item> \<open>Str\<close>: \<^verbatim>\<open>string\<close>; \<open>Num\<close>: \<^verbatim>\<open>int\<close>, \<^verbatim>\<open>int64\<close>, \<^verbatim>\<open>uint\<close>;
    \<open>Bool\<close>: \<^verbatim>\<open>bool\<close>;
  \<^item> \<open>Strs\<close>: \<^verbatim>\<open>[]string\<close> and \<^verbatim>\<open>[]*string\<close>;
  \<^item> \<open>StrMap\<close>: \<^verbatim>\<open>map[string]string\<close> (a \<^verbatim>\<open>Ref\<close>, a tag);
  \<^item> \<open>StrsMap\<close>: \<^verbatim>\<open>map[string][]string\<close> (an \<^verbatim>\<open>Fn::GetAtt\<close>);
  \<^item> \<open>StrPtrMap\<close>: \<^verbatim>\<open>map[string]*string\<close> (the docker labels);
  \<^item> \<open>Obj\<close>: \<^verbatim>\<open>map[string]interface{}\<close>;
  \<^item> \<open>Arr\<close>: \<^verbatim>\<open>[]interface{}\<close>, \<^verbatim>\<open>[]map[string]interface{}\<close>,
    \<^verbatim>\<open>[]map[string]string\<close>;
  \<^item> \<open>KeyValuePairs\<close>: \<^verbatim>\<open>[]*ecs.KeyValuePair\<close>, each pair a name and a value;
  \<^item> \<open>Ulimits\<close>: \<^verbatim>\<open>[]*ecs.Ulimit\<close>;
  \<^item> \<open>LogConf\<close>: \<^verbatim>\<open>*ecs.LogConfiguration\<close>;
  \<^item> \<open>Metadata\<close>: \<^verbatim>\<open>*serviceMetadata\<close>, a struct with the one field \<^verbatim>\<open>Name\<close>.
  Maps are HOL maps, so two values are equal exactly when they have the same content
  whatever the order of the keys; lists are compared in order.
\<close>

datatype Ulimit = Ulimit (ulimit_Name: string) (SoftLimit: int) (HardLimit: int)

datatype val =
    Str string
  | Num int
  | Bool bool
  | Strs "string list"
  | StrMap "string \<rightharpoonup> string"
  | StrsMap "string \<rightharpoonup> string list"
  | StrPtrMap "string \<rightharpoonup> string"
  | Obj "string \<rightharpoonup> val"
  | Arr "val list"
  | KeyValuePairs "(string \<times> string) list"
  | Ulimits "Ulimit list"
  | LogConf LogConfiguration
  | Metadata string

type_synonym resources = "string \<rightharpoonup> val"

record ContainerDefinition =
  cd_Name :: string
  cd_Cpu :: int
  cd_Command :: "string list"
  cd_Image :: string
  cd_Essential :: bool
  cd_Memory :: int
  cd_Environment :: "(string \<times> string) list"
  cd_LogConfiguration :: "LogConfiguration option"
  cd_DockerLabels :: "string \<rightharpoonup> string"
  cd_Ulimits :: "Ulimit list"

subsection \<open>Formatting and key normalisation\<close>

text \<open>\<^verbatim>\<open>fmt.Sprintf("%d", n)\<close>: the decimal digits of \<open>n\<close>.\<close>

fun digits :: "nat \<Rightarrow> string" where
  "digits n =
     (if n < 10 then [''0123456789'' ! n]
      else digits (n div 10) @ [''0123456789'' ! (n mod 10)])"

declare digits.simps [simp del]

definition fmt_d :: "int \<Rightarrow> string" where
  "fmt_d i = (if i < 0 then CHR ''-'' # digits (nat (- i)) else digits (nat i))"

text \<open>
  \<^verbatim>\<open>regexp.MustCompile("[^a-zA-Z0-9]").ReplaceAllString(p.Type, "")\<close>: every
  character outside the three ranges is deleted, the others keep their order.
\<close>

definition alnum :: "char \<Rightarrow> bool" where
  "alnum c \<longleftrightarrow>
     (CHR ''a'' \<le> c \<and> c \<le> CHR ''z'') \<or>
     (CHR ''A'' \<le> c \<and> c \<le> CHR ''Z'') \<or>
     (CHR ''0'' \<le> c \<and> c \<le> CHR ''9'')"

definition normalizeKey :: "string \<Rightarrow> string" where
  "normalizeKey s = filter alnum s"

subsection \<open>ContainerDefinition\<close>

text \<open>
  The source walks \<^verbatim>\<open>p.Env\<close> with \<^verbatim>\<open>range\<close>, and Go leaves the order of a
  walk over a map open: it may differ from one walk to the next. The order of the walk is
  therefore an argument of the model, \<open>ord\<close>: the entries of the map in the order in
  which this call meets them. \<open>range_of m ord\<close> says that \<open>ord\<close> is such a walk of
  \<open>m\<close>: every entry once.
\<close>

definition range_of :: "(string \<rightharpoonup> string) \<Rightarrow> (string \<times> string) list \<Rightarrow> bool" where
  "range_of m ord \<longleftrightarrow> distinct (map fst ord) \<and> map_of ord = m"

definition ContainerDefinition ::
  "EmpireTemplate \<Rightarrow> Process \<Rightarrow> (string \<times> string) list \<Rightarrow> ContainerDefinition" where
  "ContainerDefinition t p ord =
     (let command = Command p;
          environment = ord;
          labels = Labels p;
          ulimits =
            (if Nproc p \<noteq> 0
             then [Ulimit ''nproc'' (sint (Nproc p)) (sint (Nproc p))]
             else [])
      in \<lparr> cd_Name = Type p,
           cd_Cpu = sint (CPUShares p),
           cd_Command = command,
           cd_Image = Image_String p,
           cd_Essential = True,
           cd_Memory = sint (MemoryLimit p div MB),
           cd_Environment = environment,
           cd_LogConfiguration = LogConfiguration t,
           cd_DockerLabels = labels,
           cd_Ulimits = ulimits \<rparr>)"

subsection \<open>Build\<close>

text \<open>
  \<^verbatim>\<open>Build\<close> returns a document and a Go \<^verbatim>\<open>error\<close>, or it panics. A panic is the
  left summand; the only one the source can raise is the dereference of a nil pointer
  (\<^verbatim>\<open>*t.HostedZone.Id\<close>, \<^verbatim>\<open>*t.HostedZone.Name\<close>).
\<close>

datatype fault = NilPointerDereference

type_synonym error = string

type_synonym build_result = "fault + (val \<times> error option)"

text \<open>The resources written for an exposed process, as the source's map literals.\<close>

definition instancePortResource :: "EmpireTemplate \<Rightarrow> val" where
  "instancePortResource t =
     Obj [''Type'' \<mapsto> Str ''Custom::InstancePort'',
          ''Version'' \<mapsto> Str ''1.0'',
          ''Properties'' \<mapsto> Obj [''ServiceToken'' \<mapsto> Str (CustomResourcesTopic t)]]"

definition make_listeners :: "Exposure \<Rightarrow> string \<Rightarrow> val list" where
  "make_listeners e instancePort =
     (let listeners =
        [Obj [''LoadBalancerPort'' \<mapsto> Num 80,
              ''Protocol'' \<mapsto> Str ''http'',
              ''InstancePort'' \<mapsto> StrsMap [''Fn::GetAtt'' \<mapsto> [instancePort, ''InstancePort'']],
              ''InstanceProtocol'' \<mapsto> Str ''http'']]
      in case ExposureType e of
           HTTPSExposure cert \<Rightarrow>
             listeners @
             [Obj [''LoadBalancerPort'' \<mapsto> Num 80,
                   ''Protocol'' \<mapsto> Str ''http'',
                   ''InstancePort'' \<mapsto> StrsMap [''Fn::GetAtt'' \<mapsto> [instancePort, ''InstancePort'']],
                   ''SSLCertificateId'' \<mapsto> Str cert,
                   ''InstanceProtocol'' \<mapsto> Str ''http'']]
         | _ \<Rightarrow> listeners)"

definition loadBalancerResource ::
  "string \<Rightarrow> string \<Rightarrow> string list \<Rightarrow> val list \<Rightarrow> Process \<Rightarrow> val" where
  "loadBalancerResource scheme sg subnets listeners p =
     Obj [''Type'' \<mapsto> Str ''AWS::ElasticLoadBalancing::LoadBalancer'',
          ''Properties'' \<mapsto>
            Obj [''Scheme'' \<mapsto> Str scheme,
                 ''SecurityGroups'' \<mapsto> Strs [sg],
                 ''Subnets'' \<mapsto> Strs subnets,
                 ''Listeners'' \<mapsto> Arr listeners,
                 ''CrossZone'' \<mapsto> Bool True,
                 ''Tags'' \<mapsto>
                   Arr [StrMap [''Key'' \<mapsto> ''empire.app.process'', ''Value'' \<mapsto> Type p]],
                 ''ConnectionDrainingPolicy'' \<mapsto>
                   Obj [''Enabled'' \<mapsto> Bool True,
                        ''Timeout'' \<mapsto> Num defaultConnectionDrainingTimeout]]]"

definition cnameResource :: "App \<Rightarrow> string \<Rightarrow> string \<Rightarrow> string \<Rightarrow> val" where
  "cnameResource app zoneId zoneName loadBalancer =
     Obj [''Type'' \<mapsto> Str ''AWS::Route53::RecordSet'',
          ''Properties'' \<mapsto>
            Obj [''HostedZoneId'' \<mapsto> Str zoneId,
                 ''Name'' \<mapsto> Str (Name app @ ''.'' @ zoneName),
                 ''Type'' \<mapsto> Str ''CNAME'',
                 ''TTL'' \<mapsto> Num defaultCNAMETTL,
                 ''ResourceRecords'' \<mapsto> Arr [StrMap [''Ref'' \<mapsto> loadBalancer]]]]"

text \<open>The task definition and the service, written for every process.\<close>

definition taskDefinitionResource :: "ContainerDefinition \<Rightarrow> val list \<Rightarrow> val" where
  "taskDefinitionResource cd portMappings =
     (let containerDefinition =
            [''Name'' \<mapsto> Str (cd_Name cd),
             ''Command'' \<mapsto> Strs (cd_Command cd),
             ''Cpu'' \<mapsto> Num (cd_Cpu cd),
             ''Image'' \<mapsto> Str (cd_Image cd),
             ''Essential'' \<mapsto> Bool (cd_Essential cd),
             ''Memory'' \<mapsto> Num (cd_Memory cd),
             ''Environment'' \<mapsto> KeyValuePairs (cd_Environment cd),
             ''PortMappings'' \<mapsto> Arr portMappings,
             ''DockerLabels'' \<mapsto> StrPtrMap (cd_DockerLabels cd),
             ''Ulimits'' \<mapsto> Ulimits (cd_Ulimits cd)];
          containerDefinition =
            (case cd_LogConfiguration cd of
               Some lc \<Rightarrow> containerDefinition(''LogConfiguration'' \<mapsto> LogConf lc)
             | None \<Rightarrow> containerDefinition)
      in Obj [''Type'' \<mapsto> Str ''AWS::ECS::TaskDefinition'',
              ''Properties'' \<mapsto>
                Obj [''ContainerDefinitions'' \<mapsto> Arr [Obj containerDefinition],
                     ''Volumes'' \<mapsto> Arr []]])"

definition serviceResource ::
  "EmpireTemplate \<Rightarrow> Process \<Rightarrow> val list \<Rightarrow> string \<Rightarrow> val" where
  "serviceResource t p loadBalancers taskDefinition =
     (let serviceProperties =
            [''Cluster'' \<mapsto> Str (Cluster t),
             ''DesiredCount'' \<mapsto> Num (uint (Instances p)),
             ''LoadBalancers'' \<mapsto> Arr loadBalancers,
             ''TaskDefinition'' \<mapsto> StrMap [''Ref'' \<mapsto> taskDefinition]];
          serviceProperties =
            (if length loadBalancers > 0
             then serviceProperties(''Role'' \<mapsto> Str (ServiceRole t))
             else serviceProperties)
      in Obj [''Type'' \<mapsto> Str ''AWS::ECS::Service'',
              ''Metadata'' \<mapsto> Metadata (Type p),
              ''Properties'' \<mapsto> Obj serviceProperties])"

text \<open>
  The second half of the loop body (lines 206 to 250 of the source): the task
  definition and the service of the process are stored under their logical ids.
\<close>

definition task_and_service ::
  "EmpireTemplate \<Rightarrow> Process \<Rightarrow> string \<Rightarrow> ContainerDefinition \<Rightarrow> val list \<Rightarrow> val list \<Rightarrow>
   resources \<Rightarrow> resources" where
  "task_and_service t p key cd portMappings loadBalancers resources =
     (let taskDefinition = key @ ''TaskDefinition'';
          resources = resources(taskDefinition \<mapsto> taskDefinitionResource cd portMappings);
          service = key
      in resources(service \<mapsto> serviceResource t p loadBalancers taskDefinition))"

text \<open>
  The block \<^verbatim>\<open>if p.Exposure != nil { ... }\<close> (lines 96 to 204 of the source). It
  stores the instance port and the load balancer, and for the process named
  \<^verbatim>\<open>web\<close> the CNAME record; it leaves the port mappings, the load balancer
  attachments and the container definition (its environment extended by \<^verbatim>\<open>PORT\<close>)
  for the rest of the turn. Dereferencing \<^verbatim>\<open>t.HostedZone\<close>, or its \<^verbatim>\<open>Id\<close> or
  \<^verbatim>\<open>Name\<close>, panics when the pointer is nil.
\<close>

definition expose ::
  "EmpireTemplate \<Rightarrow> App \<Rightarrow> Process \<Rightarrow> Exposure \<Rightarrow> string \<Rightarrow> ContainerDefinition \<Rightarrow>
   resources \<Rightarrow> fault + (val list \<times> val list \<times> ContainerDefinition \<times> resources)" where
  "expose t app p e key cd resources =
     (let scheme = (if External e then schemeExternal else schemeInternal);
          sg = (if External e then ExternalSecurityGroupID t else InternalSecurityGroupID t);
          subnets = (if External e then ExternalSubnetIDs t else InternalSubnetIDs t);
          instancePort = key @ fmt_d ContainerPort @ ''InstancePort'';
          resources = resources(instancePort \<mapsto> instancePortResource t);
          listeners = make_listeners e instancePort;
          portMappings =
            [Obj [''ContainerPort'' \<mapsto> Num ContainerPort,
                  ''HostPort'' \<mapsto>
                    StrsMap [''Fn::GetAtt'' \<mapsto> [instancePort, ''InstancePort'']]]];
          cd = cd\<lparr>cd_Environment :=
                    cd_Environment cd @ [(''PORT'', fmt_d ContainerPort)]\<rparr>;
          loadBalancer = key @ ''LoadBalancer'';
          loadBalancers =
            [Obj [''ContainerName'' \<mapsto> Str (Type p),
                  ''ContainerPort'' \<mapsto> Num ContainerPort,
                  ''LoadBalancerName'' \<mapsto> StrMap [''Ref'' \<mapsto> loadBalancer]]];
          resources =
            resources(loadBalancer \<mapsto> loadBalancerResource scheme sg subnets listeners p)
      in if Type p = ''web'' then
           (case HostedZone t of
              None \<Rightarrow> Inl NilPointerDereference
            | Some zone \<Rightarrow>
                (case zone_Id zone of
                   None \<Rightarrow> Inl NilPointerDereference
                 | Some zoneId \<Rightarrow>
                     (case zone_Name zone of
                        None \<Rightarrow> Inl NilPointerDereference
                      | Some zoneName \<Rightarrow>
                          Inr (portMappings, loadBalancers, cd,
                               resources(''CNAME'' \<mapsto>
                                 cnameResource app zoneId zoneName loadBalancer)))))
         else Inr (portMappings, loadBalancers, cd, resources))"

text \<open>
  One turn of the loop over \<^verbatim>\<open>app.Processes\<close>: the resources map before the turn
  goes in, the map after it comes out, unless the turn panics.
\<close>

definition process_step ::
  "EmpireTemplate \<Rightarrow> App \<Rightarrow> Process \<Rightarrow> (string \<times> string) list \<Rightarrow> resources \<Rightarrow>
   fault + resources" where
  "process_step t app p ord resources =
     (let cd = ContainerDefinition t p ord;
          key = normalizeKey (Type p)
      in case Exposure p of
           None \<Rightarrow> Inr (task_and_service t p key cd [] [] resources)
         | Some e \<Rightarrow>
             (case expose t app p e key cd resources of
                Inl f \<Rightarrow> Inl f
              | Inr (portMappings, loadBalancers, cd, resources) \<Rightarrow>
                  Inr (task_and_service t p key cd portMappings loadBalancers resources)))"

text \<open>
  The loop. \<open>ords i\<close> is the order in which turn \<open>i\<close> of the loop walks the
  \<^verbatim>\<open>Env\<close> of its process; a panic ends the loop.
\<close>

fun Build_loop ::
  "EmpireTemplate \<Rightarrow> App \<Rightarrow> Process list \<Rightarrow> (nat \<Rightarrow> (string \<times> string) list) \<Rightarrow> nat \<Rightarrow>
   resources \<Rightarrow> fault + resources" where
  "Build_loop t app [] ords i resources = Inr resources"
| "Build_loop t app (p # ps) ords i resources =
     (case process_step t app p (ords i) resources of
        Inl f \<Rightarrow> Inl f
      | Inr resources' \<Rightarrow> Build_loop t app ps ords (Suc i) resources')"

definition Build ::
  "EmpireTemplate \<Rightarrow> App \<Rightarrow> (nat \<Rightarrow> (string \<times> string) list) \<Rightarrow> build_result" where
  "Build t app ords =
     (let parameters = Map.empty;
          resources = Map.empty;
          outputs = Map.empty
      in case Build_loop t app (Processes app) ords 0 resources of
           Inl f \<Rightarrow> Inl f
         | Inr resources \<Rightarrow>
             Inr (Obj [''Parameters'' \<mapsto> Obj parameters,
                       ''Resources'' \<mapsto> Obj resources,
                       ''Outputs'' \<mapsto> Obj outputs],
                  None))"

text \<open>
  In a run of \<^verbatim>\<open>Build\<close> on \<open>app\<close>, every turn walks the environment of its
  process: each entry once, in some order.
\<close>

definition walks :: "App \<Rightarrow> (nat \<Rightarrow> (string \<times> string) list) \<Rightarrow> bool" where
  "walks app ords \<longleftrightarrow>
     (\<forall>i < length (Processes app). range_of (Env (Processes app ! i)) (ords i))"

subsection \<open>Reading a document\<close>

text \<open>\<open>field v k\<close> is \<^verbatim>\<open>v[k]\<close> for a \<^verbatim>\<open>map[string]interface{}\<close>.\<close>

definition field :: "val \<Rightarrow> string \<Rightarrow> val option" where
  "field v k = (case v of Obj m \<Rightarrow> m k | _ \<Rightarrow> None)"

text \<open>The Resources mapping of the document a run returned; empty if it returned none.\<close>

definition resources_of :: "build_result \<Rightarrow> resources" where
  "resources_of r =
     (case r of
        Inr (Obj m, _) \<Rightarrow> (case m ''Resources'' of Some (Obj rs) \<Rightarrow> rs | _ \<Rightarrow> Map.empty)
      | _ \<Rightarrow> Map.empty)"

text \<open>
  The container definition inside a task definition resource: the one element of
  \<^verbatim>\<open>Properties.ContainerDefinitions\<close>.
\<close>

definition container_of :: "val \<Rightarrow> val option" where
  "container_of r =
     (case field r ''Properties'' of
        Some props \<Rightarrow>
          (case field props ''ContainerDefinitions'' of
             Some (Arr [c]) \<Rightarrow> Some c
           | _ \<Rightarrow> None)
      | None \<Rightarrow> None)"

text \<open>
  \<open>refers v x\<close>: somewhere inside \<open>v\<close> there is a direct reference to the logical id
  \<open>x\<close> or an attribute lookup on it, as \<^verbatim>\<open>Execute\<close> renders \<open>v\<close> with
  \<^verbatim>\<open>json.MarshalIndent\<close>. A direct reference is an object with the key \<^verbatim>\<open>Ref\<close>
  and a string: a \<^verbatim>\<open>map[string]string\<close>, and just as well a
  \<^verbatim>\<open>map[string]*string\<close> (the docker labels of a container, the options of a
  logging configuration), which is rendered in the same way. An attribute lookup is an
  object with the key \<^verbatim>\<open>Fn::GetAtt\<close> and a list whose first element is the id: a
  \<^verbatim>\<open>map[string][]string\<close>; a label or an option holds a string under each key, never
  a list. The pairs of an environment and the limits are rendered as objects with the
  keys \<^verbatim>\<open>Name\<close> and \<^verbatim>\<open>Value\<close>, or \<^verbatim>\<open>Name\<close>, \<^verbatim>\<open>SoftLimit\<close> and
  \<^verbatim>\<open>HardLimit\<close>: they hold no reference.
\<close>

inductive refers :: "val \<Rightarrow> string \<Rightarrow> bool" where
  Ref: "m ''Ref'' = Some x \<Longrightarrow> refers (StrMap m) x"
| GetAtt: "m ''Fn::GetAtt'' = Some (x # attr) \<Longrightarrow> refers (StrsMap m) x"
| LabelRef: "m ''Ref'' = Some x \<Longrightarrow> refers (StrPtrMap m) x"
| OptionRef: "Options lc ''Ref'' = Some x \<Longrightarrow> refers (LogConf lc) x"
| Obj: "m k = Some v \<Longrightarrow> refers v x \<Longrightarrow> refers (Obj m) x"
| Arr: "v \<in> set vs \<Longrightarrow> refers v x \<Longrightarrow> refers (Arr vs) x"

inductive_simps refers_simps [simp]:
  "refers (Str s) x"
  "refers (Num i) x"
  "refers (Bool b) x"
  "refers (Strs ss) x"
  "refers (StrMap m) x"
  "refers (StrsMap ms) x"
  "refers (StrPtrMap mp) x"
  "refers (Obj mo) x"
  "refers (Arr vs) x"
  "refers (KeyValuePairs kvs) x"
  "refers (Ulimits us) x"
  "refers (LogConf lc) x"
  "refers (Metadata n) x"

text \<open>
  \<open>refers_built v x\<close>: the same, for the two Go types in which \<^verbatim>\<open>Build\<close> itself
  writes a reference, \<^verbatim>\<open>map[string]string\<close> and \<^verbatim>\<open>map[string][]string\<close>; the
  labels and the options, which \<^verbatim>\<open>Build\<close> copies from its input, are left out.
\<close>

inductive refers_built :: "val \<Rightarrow> string \<Rightarrow> bool" where
  Ref: "m ''Ref'' = Some x \<Longrightarrow> refers_built (StrMap m) x"
| GetAtt: "m ''Fn::GetAtt'' = Some (x # attr) \<Longrightarrow> refers_built (StrsMap m) x"
| Obj: "m k = Some v \<Longrightarrow> refers_built v x \<Longrightarrow> refers_built (Obj m) x"
| Arr: "v \<in> set vs \<Longrightarrow> refers_built v x \<Longrightarrow> refers_built (Arr vs) x"

inductive_simps refers_built_simps [simp]:
  "refers_built (Str s) x"
  "refers_built (Num i) x"
  "refers_built (Bool b) x"
  "refers_built (Strs ss) x"
  "refers_built (StrMap m) x"
  "refers_built (StrsMap ms) x"
  "refers_built (StrPtrMap mp) x"
  "refers_built (Obj mo) x"
  "refers_built (Arr vs) x"
  "refers_built (KeyValuePairs kvs) x"
  "refers_built (Ulimits us) x"
  "refers_built (LogConf lc) x"
  "refers_built (Metadata n) x"

text \<open>
  No reference that \<^verbatim>\<open>Build\<close> writes in a resource of the map names an id that the
  map does not hold.
\<close>

definition no_dangling :: "resources \<Rightarrow> bool" where
  "no_dangling rs \<longleftrightarrow> (\<forall>k v x. rs k = Some v \<longrightarrow> refers_built v x \<longrightarrow> x \<in> dom rs)"

text \<open>
  The ids that a template and an application bring along as references of their own:
  the value of a docker label \<^verbatim>\<open>Ref\<close> of a process, and the value of an option
  \<^verbatim>\<open>Ref\<close> of the logging configuration.
\<close>

definition copied_refs :: "EmpireTemplate \<Rightarrow> App \<Rightarrow> string set" where
  "copied_refs t app =
     {x. (\<exists>p \<in> set (Processes app). Labels p ''Ref'' = Some x) \<or>
         (\<exists>lc. LogConfiguration t = Some lc \<and> Options lc ''Ref'' = Some x)}"

text \<open>
  Every reference of a resource of the map names an id that the map holds, unless the
  resource is a task definition and the id is one of \<open>C\<close>.
\<close>

definition no_dangling_but :: "string set \<Rightarrow> resources \<Rightarrow> bool" where
  "no_dangling_but C rs \<longleftrightarrow>
     (\<forall>k v x. rs k = Some v \<longrightarrow> refers v x \<longrightarrow>
        x \<in> dom rs \<or>
        (field v ''Type'' = Some (Str ''AWS::ECS::TaskDefinition'') \<and> x \<in> C))"

text \<open>
  The logical ids under which the turn of the loop for \<open>p\<close> writes: the task
  definition and the service of every process; the instance port and the load balancer of
  an exposed one; \<^verbatim>\<open>CNAME\<close> for the exposed process named \<^verbatim>\<open>web\<close>.
\<close>

definition written_ids :: "Process \<Rightarrow> string set" where
  "written_ids p =
     (let key = normalizeKey (Type p)
      in {key @ ''TaskDefinition'', key} \<union>
         (case Exposure p of
            None \<Rightarrow> {}
          | Some e \<Rightarrow>
              {key @ ''8080InstancePort'', key @ ''LoadBalancer''} \<union>
              (if Type p = ''web'' then {''CNAME''} else {})))"

text \<open>
  The load balancer that the turn of the loop for the process \<open>p\<close> with the exposure
  \<open>e\<close> stores under the id of its load balancer (lines 97 to 105 and 167 to 186 of
  the source).
\<close>

definition loadBalancer_of :: "EmpireTemplate \<Rightarrow> Process \<Rightarrow> Exposure \<Rightarrow> val" where
  "loadBalancer_of t p e =
     loadBalancerResource
       (if External e then schemeExternal else schemeInternal)
       (if External e then ExternalSecurityGroupID t else InternalSecurityGroupID t)
       (if External e then ExternalSubnetIDs t else InternalSubnetIDs t)
       (make_listeners e (normalizeKey (Type p) @ ''8080InstancePort'')) p"

text \<open>The logical ids of the load balancers of a resources map.\<close>

definition load_balancers :: "resources \<Rightarrow> string set" where
  "load_balancers rs =
     {k. \<exists>r. rs k = Some r \<and>
           field r ''Type'' = Some (Str ''AWS::ElasticLoadBalancing::LoadBalancer'')}"

text \<open>A load balancer or an instance port (the deferred-port resource).\<close>

definition network_resource :: "val \<Rightarrow> bool" where
  "network_resource r \<longleftrightarrow>
     field r ''Type'' = Some (Str ''AWS::ElasticLoadBalancing::LoadBalancer'') \<or>
     field r ''Type'' = Some (Str ''Custom::InstancePort'')"

text \<open>The logical ids of the DNS records of a resources map.\<close>

definition dns_records :: "resources \<Rightarrow> string set" where
  "dns_records rs =
     {k. \<exists>r. rs k = Some r \<and> field r ''Type'' = Some (Str ''AWS::Route53::RecordSet'')}"

text \<open>
  \<open>r\<close> is the CNAME record of the application \<open>app\<close> in the hosted zone of the
  template: its name is the name of the application and the name of the zone joined by
  a dot, its type is CNAME, its time to live is 60, and its one resource record is a
  reference to the logical id \<^verbatim>\<open>webLoadBalancer\<close>.
\<close>

definition web_record :: "EmpireTemplate \<Rightarrow> App \<Rightarrow> val \<Rightarrow> bool" where
  "web_record t app r \<longleftrightarrow>
     (\<exists>zone zoneId zoneName.
        HostedZone t = Some zone \<and> zone_Id zone = Some zoneId \<and>
        zone_Name zone = Some zoneName \<and>
        r = Obj [''Type'' \<mapsto> Str ''AWS::Route53::RecordSet'',
                 ''Properties'' \<mapsto>
                   Obj [''HostedZoneId'' \<mapsto> Str zoneId,
                        ''Name'' \<mapsto> Str (Name app @ ''.'' @ zoneName),
                        ''Type'' \<mapsto> Str ''CNAME'',
                        ''TTL'' \<mapsto> Num 60,
                        ''ResourceRecords'' \<mapsto> Arr [StrMap [''Ref'' \<mapsto> ''webLoadBalancer'']]]])"

text \<open>
  Some exposed process named \<^verbatim>\<open>web\<close> of the list has no process of key
  \<^verbatim>\<open>CNAME\<close> after it.
\<close>

definition web_stands :: "Process list \<Rightarrow> bool" where
  "web_stands ps \<longleftrightarrow>
     (\<exists>ps1 p ps2. ps = ps1 @ p # ps2 \<and> Type p = ''web'' \<and> Exposure p \<noteq> None \<and>
        (\<forall>q \<in> set ps2. normalizeKey (Type q) \<noteq> ''CNAME''))"

text \<open>
  The environment list of the container of the task definition stored under the id \<open>k\<close>
  in the document of a run.
\<close>

definition environment_of :: "build_result \<Rightarrow> string \<Rightarrow> val option" where
  "environment_of r k =
     (case resources_of r k of
        None \<Rightarrow> None
      | Some td \<Rightarrow> (case container_of td of None \<Rightarrow> None | Some c \<Rightarrow> field c ''Environment''))"

text \<open>
  \<open>sort_environments v\<close> is \<open>v\<close> with every list of environment pairs put in
  ascending order; nothing else changes. \<open>sorted_result\<close> does this to the document of
  a run.
\<close>

primrec sort_environments :: "val \<Rightarrow> val" where
  "sort_environments (Str s) = Str s"
| "sort_environments (Num i) = Num i"
| "sort_environments (Bool b) = Bool b"
| "sort_environments (Strs ss) = Strs ss"
| "sort_environments (StrMap m) = StrMap m"
| "sort_environments (StrsMap m) = StrsMap m"
| "sort_environments (StrPtrMap m) = StrPtrMap m"
| "sort_environments (Obj m) = Obj (\<lambda>k. map_option sort_environments (m k))"
| "sort_environments (Arr vs) = Arr (map sort_environments vs)"
| "sort_environments (KeyValuePairs kvs) = KeyValuePairs (sort kvs)"
| "sort_environments (Ulimits us) = Ulimits us"
| "sort_environments (LogConf lc) = LogConf lc"
| "sort_environments (Metadata n) = Metadata n"

definition sorted_result :: "build_result \<Rightarrow> build_result" where
  "sorted_result r = map_sum id (map_prod sort_environments id) r"

text \<open>Two resources maps that agree once their environment lists are sorted.\<close>

definition alike :: "resources \<Rightarrow> resources \<Rightarrow> bool" where
  "alike rs1 rs2 \<longleftrightarrow>
     (\<forall>k. map_option sort_environments (rs1 k) = map_option sort_environments (rs2 k))"

subsection \<open>Example inputs\<close>

text \<open>
  The application \<^verbatim>\<open>acme-inc\<close> in the hosted zone \<^verbatim>\<open>empire.\<close>, with an exposed
  \<^verbatim>\<open>web\<close> process and an unexposed \<^verbatim>\<open>worker-1\<close> process.
\<close>

definition tmpl :: EmpireTemplate where
  "tmpl =
     \<lparr> Cluster = ''cluster'',
       HostedZone = Some \<lparr> zone_Id = Some ''Z3DG6IL3SJCGPX'', zone_Name = Some ''empire.'' \<rparr>,
       InternalSecurityGroupID = ''sg-e7387381'',
       ExternalSecurityGroupID = ''sg-1938737f'',
       InternalSubnetIDs = [''subnet-bb01c4cd''],
       ExternalSubnetIDs = [''subnet-ca96f490''],
       ServiceRole = ''ecsServiceRole'',
       CustomResourcesTopic = ''sns-topic-arn'',
       LogConfiguration = None \<rparr>"

definition tmpl_no_zone :: EmpireTemplate where
  "tmpl_no_zone = tmpl\<lparr>HostedZone := None\<rparr>"

definition worker :: Process where
  "worker =
     \<lparr> Type = ''worker-1'', Image_String = ''remind101/acme-inc:latest'',
       Command = [''./bin/worker''], Env = Map.empty, Labels = Map.empty,
       Exposure = None,
       Instances = 1, MemoryLimit = 104857600, CPUShares = 256, Nproc = 256 \<rparr>"

definition web :: Process where
  "web =
     \<lparr> Type = ''web'', Image_String = ''remind101/acme-inc:latest'',
       Command = [''./bin/web''], Env = Map.empty, Labels = Map.empty,
       Exposure = Some \<lparr> External = True, ExposureType = HTTPExposure \<rparr>,
       Instances = 1, MemoryLimit = 104857601, CPUShares = 256, Nproc = 0 \<rparr>"

definition api :: Process where
  "api =
     \<lparr> Type = ''api'', Image_String = ''remind101/acme-inc:latest'',
       Command = [''./bin/api''], Env = Map.empty, Labels = Map.empty,
       Exposure = Some \<lparr> External = False, ExposureType = HTTPSExposure ''cert-1'' \<rparr>,
       Instances = 2, MemoryLimit = 104857600, CPUShares = 256, Nproc = 0 \<rparr>"

definition acme :: App where
  "acme = \<lparr> Name = ''acme-inc'', Processes = [web, worker] \<rparr>"

text \<open>Runs in which every environment is empty: each walk meets no entry.\<close>

definition empty_walks :: "nat \<Rightarrow> (string \<times> string) list" where
  "empty_walks i = []"

text \<open>An application with a process whose name is \<^verbatim>\<open>CNAME\<close>.\<close>

definition cname :: Process where
  "cname = worker\<lparr>Type := ''CNAME''\<rparr>"

definition acme_cname :: App where
  "acme_cname = \<lparr> Name = ''acme-inc'', Processes = [web, cname] \<rparr>"

text \<open>
  An application with two processes, \<^verbatim>\<open>worker-1\<close> and \<^verbatim>\<open>worker1\<close>, whose names
  normalize to the same key.
\<close>

definition worker2 :: Process where
  "worker2 = worker\<lparr>Type := ''worker1'', Instances := 2\<rparr>"

definition acme_collide :: App where
  "acme_collide = \<lparr> Name = ''acme-inc'', Processes = [worker, worker2] \<rparr>"

text \<open>
  An application with one process whose environment has two entries, and the two
  orders in which a walk can meet them.
\<close>

definition job :: Process where
  "job =
     \<lparr> Type = ''job'', Image_String = ''remind101/acme-inc:latest'',
       Command = [''./bin/job''], Env = [''A'' \<mapsto> ''1'', ''B'' \<mapsto> ''2''],
       Labels = Map.empty, Exposure = None,
       Instances = 1, MemoryLimit = 104857600, CPUShares = 256, Nproc = 0 \<rparr>"

definition batch :: App where
  "batch = \<lparr> Name = ''batch'', Processes = [job] \<rparr>"

definition walk_ab :: "nat \<Rightarrow> (string \<times> string) list" where
  "walk_ab i = [(''A'', ''1''), (''B'', ''2'')]"

definition walk_ba :: "nat \<Rightarrow> (string \<times> string) list" where
  "walk_ba i = [(''B'', ''2''), (''A'', ''1'')]"

text \<open>
  A process with the docker label \<^verbatim>\<open>Ref\<close>, and a template whose logging
  configuration has the option \<^verbatim>\<open>Ref\<close>; an application with the one process
  \<^verbatim>\<open>worker-1\<close>.
\<close>

definition labelled :: Process where
  "labelled = worker\<lparr>Labels := [''Ref'' \<mapsto> ''ghost'']\<rparr>"

definition acme_labelled :: App where
  "acme_labelled = \<lparr> Name = ''acme-inc'', Processes = [labelled] \<rparr>"

definition tmpl_logs :: EmpireTemplate where
  "tmpl_logs =
     tmpl\<lparr>LogConfiguration :=
            Some \<lparr> LogDriver = Some ''syslog'', Options = [''Ref'' \<mapsto> ''ghost''] \<rparr>\<rparr>"

definition acme_worker :: App where
  "acme_worker = \<lparr> Name = ''acme-inc'', Processes = [worker] \<rparr>"

text \<open>
  Applications in which an exposed process is followed by a process whose key is an id
  of the first: \<^verbatim>\<open>web\<close> by \<^verbatim>\<open>webLoadBalancer\<close>, \<^verbatim>\<open>api\<close> by
  \<^verbatim>\<open>apiLoadBalancer\<close>, and \<^verbatim>\<open>api\<close> by the unexposed \<^verbatim>\<open>a-pi\<close>. And one in
  which \<^verbatim>\<open>api\<close> is followed by \<^verbatim>\<open>worker-1\<close>, which shares no id with it.
\<close>

definition weblb :: Process where
  "weblb = worker\<lparr>Type := ''webLoadBalancer''\<rparr>"

definition acme_weblb :: App where
  "acme_weblb = \<lparr> Name = ''acme-inc'', Processes = [web, weblb] \<rparr>"



definition api2 :: Process where
  "api2 = worker\<lparr>Type := ''a-pi''\<rparr>"

definition acme_api2 :: App where
  "acme_api2 = \<lparr> Name = ''acme-inc'', Processes = [api, api2] \<rparr>"

definition acme_api :: App where
  "acme_api = \<lparr> Name = ''acme-inc'', Processes = [api, worker] \<rparr>"

section \<open>Properties\<close>

subsection \<open>Identifiers\<close>

lemma fmt_d_ContainerPort: "fmt_d ContainerPort = ''8080''"
  by (simp add: fmt_d_def ContainerPort_def digits.simps)

lemma normalizeKey_web: "normalizeKey ''web'' = ''web''"
  by (simp add: normalizeKey_def alnum_def)

lemma normalizeKey_worker: "normalizeKey ''worker-1'' = ''worker1''"
  by (simp add: normalizeKey_def alnum_def)

subsection \<open>The memory of a task\<close>

lemma uint_MB: "uint MB = 2 ^ 20"
  by (simp add: MB_def)

text \<open>
  The quotient of a 64-bit unsigned value by \<open>2^20\<close> is below \<open>2^63\<close>, so the conversion
  \<^verbatim>\<open>int64(...)\<close> does not change it.
\<close>

lemma sint_div_MB: "sint (w div MB) = uint w div 2 ^ 20" for w :: "64 word"
proof -
  have "uint w < 2 ^ 64"
    using uint_bounded [of w] by simp
  then have small: "uint w div 2 ^ 20 < 2 ^ 63"
    by simp
  have nonneg: "0 \<le> uint w div 2 ^ 20"
    by (simp add: pos_imp_zdiv_nonneg_iff)
  have "uint (w div MB) = uint w div 2 ^ 20"
    by (simp add: uint_div uint_MB)
  moreover have "sint (w div MB) = signed_take_bit 63 (uint (w div MB))"
    by (simp add: sint_uint)
  ultimately show ?thesis
    using small nonneg by (simp add: signed_take_bit_int_eq_self)
qed

lemma container_of_taskDefinitionResource:
  "\<exists>c. container_of (taskDefinitionResource cd portMappings) = Some c \<and>
       field c ''Memory'' = Some (Num (cd_Memory cd)) \<and>
       field c ''Environment'' = Some (KeyValuePairs (cd_Environment cd)) \<and>
       field c ''PortMappings'' = Some (Arr portMappings)"
  by (simp add: container_of_def taskDefinitionResource_def field_def Let_def
      split: option.split)

text \<open>
  Claim C8. The memory value of a task is the memory limit of the process in bytes
  divided by \<open>2^20\<close>, the remainder dropped: it is the \<^verbatim>\<open>Memory\<close> of the container
  definition and of the task definition resource built from it. A limit of 104857600
  bytes gives 100, and a limit of 104857601 bytes gives 100 as well.
\<close>

theorem task_memory_megabytes:
  "cd_Memory (ContainerDefinition t p ord) = uint (MemoryLimit p) div 2 ^ 20 \<and>
   (\<exists>c. container_of (taskDefinitionResource (ContainerDefinition t p ord) portMappings)
           = Some c \<and>
        field c ''Memory'' = Some (Num (uint (MemoryLimit p) div 2 ^ 20))) \<and>
   cd_Memory (ContainerDefinition t (p\<lparr>MemoryLimit := 104857600\<rparr>) ord) = 100 \<and>
   cd_Memory (ContainerDefinition t (p\<lparr>MemoryLimit := 104857601\<rparr>) ord) = 100"
proof -
  have mem: "cd_Memory (ContainerDefinition t q ord) = uint (MemoryLimit q) div 2 ^ 20" for q
    by (simp add: ContainerDefinition_def sint_div_MB)
  obtain c where
    "container_of (taskDefinitionResource (ContainerDefinition t p ord) portMappings) = Some c"
    "field c ''Memory'' = Some (Num (cd_Memory (ContainerDefinition t p ord)))"
    using container_of_taskDefinitionResource by blast
  then show ?thesis
    by (simp add: mem)
qed

subsection \<open>One turn of the loop\<close>

lemma fmt_d_8080: "fmt_d 8080 = ''8080''"
  using fmt_d_ContainerPort by (simp add: ContainerPort_def)

lemma field_Obj [simp]: "field (Obj m) k = m k"
  by (simp add: field_def)

lemma field_SomeD: "field v k = Some w \<Longrightarrow> \<exists>m. v = Obj m \<and> m k = Some w"
  by (cases v) (simp_all add: field_def)

text \<open>What the exposure block leaves behind when it does not panic.\<close>

lemma expose_Inr:
  assumes "expose t app p e key cd rs = Inr (pms, lbs, cd', rs')"
  shows "pms = [Obj [''ContainerPort'' \<mapsto> Num 8080,
                     ''HostPort'' \<mapsto>
                       StrsMap [''Fn::GetAtt'' \<mapsto> [key @ ''8080InstancePort'', ''InstancePort'']]]]"
    and "lbs = [Obj [''ContainerName'' \<mapsto> Str (Type p),
                     ''ContainerPort'' \<mapsto> Num 8080,
                     ''LoadBalancerName'' \<mapsto> StrMap [''Ref'' \<mapsto> key @ ''LoadBalancer'']]]"
    and "cd' = cd\<lparr>cd_Environment := cd_Environment cd @ [(''PORT'', ''8080'')]\<rparr>"
    and "\<exists>scheme sg subnets.
           (Type p \<noteq> ''web'' \<and>
            rs' = rs(key @ ''8080InstancePort'' \<mapsto> instancePortResource t,
                     key @ ''LoadBalancer'' \<mapsto>
                       loadBalancerResource scheme sg subnets
                         (make_listeners e (key @ ''8080InstancePort'')) p)) \<or>
           (\<exists>zone zoneId zoneName.
              Type p = ''web'' \<and> HostedZone t = Some zone \<and>
              zone_Id zone = Some zoneId \<and> zone_Name zone = Some zoneName \<and>
              rs' = rs(key @ ''8080InstancePort'' \<mapsto> instancePortResource t,
                       key @ ''LoadBalancer'' \<mapsto>
                         loadBalancerResource scheme sg subnets
                           (make_listeners e (key @ ''8080InstancePort'')) p,
                       ''CNAME'' \<mapsto> cnameResource app zoneId zoneName (key @ ''LoadBalancer'')))"
  using assms
  by (auto simp add: expose_def Let_def fmt_d_8080 ContainerPort_def
      split: if_splits option.splits)

lemma process_step_unexposed:
  "Exposure p = None \<Longrightarrow>
   process_step t app p ord rs =
     Inr (task_and_service t p (normalizeKey (Type p)) (ContainerDefinition t p ord) [] [] rs)"
  by (simp add: process_step_def)

lemma process_step_exposed:
  assumes "Exposure p = Some e" and "process_step t app p ord rs = Inr rs'"
  obtains pms lbs cd' rs1 where
    "expose t app p e (normalizeKey (Type p)) (ContainerDefinition t p ord) rs
       = Inr (pms, lbs, cd', rs1)"
    and "rs' = task_and_service t p (normalizeKey (Type p)) cd' pms lbs rs1"
  using assms by (auto simp add: process_step_def Let_def split: sum.splits)

lemma task_and_service_apply:
  "task_and_service t p key cd pms lbs rs k =
     (if k = key then Some (serviceResource t p lbs (key @ ''TaskDefinition''))
      else if k = key @ ''TaskDefinition'' then Some (taskDefinitionResource cd pms)
      else rs k)"
  by (simp add: task_and_service_def Let_def)


lemma loadBalancerResource_fields:
  "field (loadBalancerResource scheme sg subnets listeners p) ''Type''
     = Some (Str ''AWS::ElasticLoadBalancing::LoadBalancer'')"
  "\<exists>props. field (loadBalancerResource scheme sg subnets listeners p) ''Properties'' = Some props \<and>
     field props ''Listeners'' = Some (Arr listeners)"
  by (simp_all add: loadBalancerResource_def)

lemma taskDefinitionResource_Type:
  "field (taskDefinitionResource cd pms) ''Type'' = Some (Str ''AWS::ECS::TaskDefinition'')"
  by (simp add: taskDefinitionResource_def Let_def)

lemma serviceResource_fields:
  "field (serviceResource t p lbs td) ''Type'' = Some (Str ''AWS::ECS::Service'')"
  "field (serviceResource t p lbs td) ''Metadata'' = Some (Metadata (Type p))"
  "\<exists>props. field (serviceResource t p lbs td) ''Properties'' = Some props \<and>
     field props ''LoadBalancers'' = Some (Arr lbs) \<and>
     field props ''DesiredCount'' = Some (Num (uint (Instances p))) \<and>
     field props ''TaskDefinition'' = Some (StrMap [''Ref'' \<mapsto> td]) \<and>
     field props ''Role'' = (if lbs \<noteq> [] then Some (Str (ServiceRole t)) else None)"
  by (simp_all add: serviceResource_def Let_def)

subsection \<open>A process without exposure\<close>

lemma not_network [simp]:
  "\<not> network_resource (taskDefinitionResource cd pms)"
  "\<not> network_resource (serviceResource t p lbs td)"
  "\<not> network_resource (cnameResource app zoneId zoneName lb)"
  by (simp_all add: network_resource_def taskDefinitionResource_Type serviceResource_fields
      cnameResource_def)






subsection \<open>The example runs\<close>

lemma normalizeKey_CNAME: "normalizeKey ''CNAME'' = ''CNAME''"
  by (simp add: normalizeKey_def alnum_def)

lemma process_step_web:
  "process_step tmpl app web [] rs =
     Inr (task_and_service tmpl web ''web''
            ((ContainerDefinition tmpl web [])\<lparr>cd_Environment := [(''PORT'', ''8080'')]\<rparr>)
            [Obj [''ContainerPort'' \<mapsto> Num 8080,
                  ''HostPort'' \<mapsto>
                    StrsMap [''Fn::GetAtt'' \<mapsto> [''web8080InstancePort'', ''InstancePort'']]]]
            [Obj [''ContainerName'' \<mapsto> Str ''web'',
                  ''ContainerPort'' \<mapsto> Num 8080,
                  ''LoadBalancerName'' \<mapsto> StrMap [''Ref'' \<mapsto> ''webLoadBalancer'']]]
            (rs(''web8080InstancePort'' \<mapsto> instancePortResource tmpl,
                ''webLoadBalancer'' \<mapsto>
                  loadBalancerResource ''internet-facing'' ''sg-1938737f'' [''subnet-ca96f490'']
                    (make_listeners \<lparr> External = True, ExposureType = HTTPExposure \<rparr>
                       ''web8080InstancePort'') web,
                ''CNAME'' \<mapsto>
                  cnameResource app ''Z3DG6IL3SJCGPX'' ''empire.'' ''webLoadBalancer'')))"
proof -
  have "Type web = ''web''"
    and "Exposure web = Some \<lparr> External = True, ExposureType = HTTPExposure \<rparr>"
    and "HostedZone tmpl = Some \<lparr> zone_Id = Some ''Z3DG6IL3SJCGPX'', zone_Name = Some ''empire.'' \<rparr>"
    and "ExternalSecurityGroupID tmpl = ''sg-1938737f''"
    and "ExternalSubnetIDs tmpl = [''subnet-ca96f490'']"
    and "cd_Environment (ContainerDefinition tmpl web []) = []"
    by (simp_all add: web_def tmpl_def ContainerDefinition_def)
  then show ?thesis
    by (simp add: process_step_def expose_def Let_def normalizeKey_web fmt_d_8080
        ContainerPort_def schemeExternal_def)
qed

lemma process_step_worker:
  "process_step t app worker [] rs =
     Inr (task_and_service t worker ''worker1'' (ContainerDefinition t worker []) [] [] rs)"
  by (simp add: process_step_unexposed worker_def normalizeKey_worker)

lemma process_step_cname:
  "process_step t app cname [] rs =
     Inr (task_and_service t cname ''CNAME'' (ContainerDefinition t cname []) [] [] rs)"
  by (simp add: process_step_unexposed cname_def worker_def normalizeKey_CNAME)

lemma Build_acme_returns: "\<exists>doc. Build tmpl acme empty_walks = Inr (doc, None)"
  by (simp add: Build_def acme_def empty_walks_def process_step_web process_step_worker)

subsection \<open>Parameters and Outputs\<close>

lemma Build_document:
  "Build t app ords = Inr (doc, err) \<Longrightarrow>
   \<exists>resources.
     Build_loop t app (Processes app) ords 0 Map.empty = Inr resources \<and>
     doc = Obj [''Parameters'' \<mapsto> Obj Map.empty,
                ''Resources'' \<mapsto> Obj resources,
                ''Outputs'' \<mapsto> Obj Map.empty] \<and>
     err = None"
  by (auto simp add: Build_def split: sum.splits)

lemma Build_resources:
  assumes "Build t app ords = Inr (doc, err)" and "field doc ''Resources'' = Some (Obj rs)"
  shows "Build_loop t app (Processes app) ords 0 Map.empty = Inr rs"
  using Build_document [OF assms(1)] assms(2) by auto

lemma Build_has_resources:
  assumes "Build t app ords = Inr (doc, err)"
  shows "\<exists>rs. field doc ''Resources'' = Some (Obj rs)"
  using Build_document [OF assms] by auto

text \<open>
  Claim C10. Whatever the application, the document that \<^verbatim>\<open>Build\<close> returns has an
  empty Parameters mapping and an empty Outputs mapping.
\<close>

theorem Build_Parameters_Outputs_empty:
  "Build t app ords = Inr (doc, err) \<Longrightarrow>
   field doc ''Parameters'' = Some (Obj Map.empty) \<and>
   field doc ''Outputs'' = Some (Obj Map.empty)"
  by (auto dest!: Build_document)

theorem Build_Parameters_Outputs_empty_witness:
  "\<exists>doc. Build tmpl acme empty_walks = Inr (doc, None) \<and>
         field doc ''Parameters'' = Some (Obj Map.empty) \<and>
         field doc ''Outputs'' = Some (Obj Map.empty)"
proof -
  obtain doc where run: "Build tmpl acme empty_walks = Inr (doc, None)"
    using Build_acme_returns by blast
  from Build_Parameters_Outputs_empty [OF run] run show ?thesis
    by blast
qed

subsection \<open>A missing hosted zone\<close>

lemma fault_eq: "f = NilPointerDereference"
  by (cases f) simp

lemma expose_web_no_zone:
  "HostedZone t = None \<Longrightarrow> Type p = ''web'' \<Longrightarrow>
   expose t app p e key cd rs = Inl NilPointerDereference"
  by (simp add: expose_def Let_def)

lemma process_step_web_no_zone:
  "HostedZone t = None \<Longrightarrow> Type p = ''web'' \<Longrightarrow> Exposure p \<noteq> None \<Longrightarrow>
   process_step t app p ord rs = Inl NilPointerDereference"
  by (auto simp add: process_step_def Let_def expose_web_no_zone)

lemma Build_loop_web_no_zone:
  assumes "HostedZone t = None" and "p \<in> set ps" and "Type p = ''web''"
    and "Exposure p \<noteq> None"
  shows "Build_loop t app ps ords i rs = Inl NilPointerDereference"
  using assms(2)
proof (induction ps arbitrary: i rs)
  case Nil
  then show ?case by simp
next
  case (Cons q ps)
  show ?case
  proof (cases "process_step t app q (ords i) rs")
    case (Inl f)
    then show ?thesis
      by (simp add: fault_eq [of f])
  next
    case (Inr rs')
    with Cons.prems assms(1,3,4) have "p \<in> set ps"
      by (auto simp add: process_step_web_no_zone)
    with Inr Cons.IH show ?thesis
      by simp
  qed
qed

text \<open>
  Claim C1 asks for an error value when an exposed \<^verbatim>\<open>web\<close> process meets a template
  without hosted zone. The source dereferences \<^verbatim>\<open>t.HostedZone\<close> unguarded: the run
  ends in a nil pointer dereference, and \<^verbatim>\<open>Build\<close> returns neither a document nor
  an error.
\<close>

theorem Build_panics_without_zone:
  assumes "HostedZone t = None" and "p \<in> set (Processes app)" and "Type p = ''web''"
    and "Exposure p \<noteq> None"
  shows "Build t app ords = Inl NilPointerDereference"
  using Build_loop_web_no_zone [OF assms] by (simp add: Build_def)

theorem Build_panics_without_zone_witness:
  "HostedZone tmpl_no_zone = None \<and> web \<in> set (Processes acme) \<and> Type web = ''web'' \<and>
   Exposure web \<noteq> None \<and> Build tmpl_no_zone acme empty_walks = Inl NilPointerDereference"
  using Build_panics_without_zone [of tmpl_no_zone web acme empty_walks]
  by (simp add: tmpl_no_zone_def acme_def web_def)

subsection \<open>Two processes with one key\<close>

lemma Build_loop_append:
  "Build_loop t app (ps @ qs) ords i rs =
     (case Build_loop t app ps ords i rs of
        Inl f \<Rightarrow> Inl f
      | Inr rs1 \<Rightarrow> Build_loop t app qs ords (i + length ps) rs1)"
  by (induction ps arbitrary: i rs) (auto split: sum.splits)

lemma container_Name:
  "\<exists>c. container_of (taskDefinitionResource cd portMappings) = Some c \<and>
       field c ''Name'' = Some (Str (cd_Name cd))"
  by (simp add: container_of_def taskDefinitionResource_def field_def Let_def
      split: option.split)

text \<open>
  Whatever the map held before, after the turn of a process its two ids hold its own
  task definition and service.
\<close>

lemma process_step_stores:
  assumes "process_step t app p ord rs = Inr rs'"
  shows "\<exists>cd pms lbs.
           cd_Name cd = Type p \<and>
           rs' (normalizeKey (Type p) @ ''TaskDefinition'') = Some (taskDefinitionResource cd pms) \<and>
           rs' (normalizeKey (Type p))
             = Some (serviceResource t p lbs (normalizeKey (Type p) @ ''TaskDefinition''))"
proof (cases "Exposure p")
  case None
  have "cd_Name (ContainerDefinition t p ord) = Type p"
    by (simp add: ContainerDefinition_def)
  with None assms show ?thesis
    by (intro exI [of _ "ContainerDefinition t p ord"] exI [of _ "[]"])
      (auto simp add: process_step_unexposed task_and_service_apply)
next
  case (Some e)
  from Some assms obtain pms lbs cd' rs1 where
    ex: "expose t app p e (normalizeKey (Type p)) (ContainerDefinition t p ord) rs
           = Inr (pms, lbs, cd', rs1)"
    and rs': "rs' = task_and_service t p (normalizeKey (Type p)) cd' pms lbs rs1"
    by (rule process_step_exposed)
  have "cd_Name cd' = Type p"
    by (simp add: expose_Inr(3) [OF ex] ContainerDefinition_def)
  then show ?thesis
    by (intro exI [of _ cd'] exI [of _ pms] exI [of _ lbs])
      (simp add: rs' task_and_service_apply)
qed

text \<open>
  Claim C2, as the source has it. \<^verbatim>\<open>Build\<close> has no check for colliding logical
  ids: whenever it returns, its error is nil, and every write to the resources map
  replaces what was stored under the id. So the ids of the last process of the
  application hold the task definition and the service of that process (the container
  and the metadata carry its name, the service its instance count), whatever an earlier
  process with the same key stored there.
\<close>

theorem collision_overwrites:
  assumes "Build t app ords = Inr (doc, err)"
    and "field doc ''Resources'' = Some (Obj rs)"
    and "Processes app = ps @ [q]"
  shows "err = None \<and>
         (\<exists>td c svc props.
            rs (normalizeKey (Type q) @ ''TaskDefinition'') = Some td \<and>
            container_of td = Some c \<and>
            field c ''Name'' = Some (Str (Type q)) \<and>
            rs (normalizeKey (Type q)) = Some svc \<and>
            field svc ''Metadata'' = Some (Metadata (Type q)) \<and>
            field svc ''Properties'' = Some props \<and>
            field props ''DesiredCount'' = Some (Num (uint (Instances q))))"
proof -
  have err: "err = None"
    using Build_document [OF assms(1)] by blast
  from Build_resources [OF assms(1,2)] assms(3) obtain rs1 where
    "process_step t app q (ords (length ps)) rs1 = Inr rs"
    by (auto simp add: Build_loop_append split: sum.splits)
  from process_step_stores [OF this] obtain cd pms lbs where
    cd: "cd_Name cd = Type q"
    and td: "rs (normalizeKey (Type q) @ ''TaskDefinition'') = Some (taskDefinitionResource cd pms)"
    and svc: "rs (normalizeKey (Type q))
      = Some (serviceResource t q lbs (normalizeKey (Type q) @ ''TaskDefinition''))"
    by blast
  obtain c where c: "container_of (taskDefinitionResource cd pms) = Some c"
    "field c ''Name'' = Some (Str (cd_Name cd))"
    using container_Name by blast
  obtain props where props:
    "field (serviceResource t q lbs (normalizeKey (Type q) @ ''TaskDefinition'')) ''Properties''
       = Some props"
    "field props ''DesiredCount'' = Some (Num (uint (Instances q)))"
    using serviceResource_fields(3) by blast
  show ?thesis
    using err cd td svc c props serviceResource_fields(2) by auto
qed

lemma process_step_worker2:
  "process_step t app worker2 [] rs =
     Inr (task_and_service t worker2 ''worker1'' (ContainerDefinition t worker2 []) [] [] rs)"
  by (simp add: process_step_unexposed worker2_def worker_def normalizeKey_def alnum_def)

theorem collision_overwrites_witness:
  "\<exists>doc rs td c svc props.
     Build tmpl acme_collide empty_walks = Inr (doc, None) \<and>
     field doc ''Resources'' = Some (Obj rs) \<and>
     Processes acme_collide = [worker] @ [worker2] \<and>
     rs ''worker1TaskDefinition'' = Some td \<and>
     container_of td = Some c \<and>
     field c ''Name'' = Some (Str ''worker1'') \<and>
     rs ''worker1'' = Some svc \<and>
     field svc ''Metadata'' = Some (Metadata ''worker1'') \<and>
     field svc ''Properties'' = Some props \<and>
     field props ''DesiredCount'' = Some (Num 2)"
proof -
  have "\<exists>doc. Build tmpl acme_collide empty_walks = Inr (doc, None)"
    by (simp add: Build_def acme_collide_def empty_walks_def process_step_worker
        process_step_worker2)
  then obtain doc where run: "Build tmpl acme_collide empty_walks = Inr (doc, None)"
    by blast
  obtain rs where rs: "field doc ''Resources'' = Some (Obj rs)"
    using Build_has_resources [OF run] by blast
  have ps: "Processes acme_collide = [worker] @ [worker2]"
    by (simp add: acme_collide_def)
  have q: "Type worker2 = ''worker1''" "normalizeKey ''worker1'' = ''worker1''"
    "uint (Instances worker2) = 2"
    by (simp_all add: worker2_def worker_def normalizeKey_def alnum_def)
  from collision_overwrites [OF run rs ps] run rs ps show ?thesis
    by (simp add: q)
qed

text \<open>
  Claim C2 as the spec states it fails: the processes \<^verbatim>\<open>worker-1\<close> and
  \<^verbatim>\<open>worker1\<close> normalize to the same key, and \<^verbatim>\<open>Build\<close> returns a document and a
  nil error; the document holds the resources of the second process only.
\<close>

theorem collision_counterexample:
  "Type worker \<noteq> Type worker2 \<and>
   normalizeKey (Type worker) = normalizeKey (Type worker2) \<and>
   Build tmpl acme_collide empty_walks =
     Inr (Obj [''Parameters'' \<mapsto> Obj Map.empty,
               ''Resources'' \<mapsto>
                 Obj [''worker1TaskDefinition'' \<mapsto>
                        taskDefinitionResource (ContainerDefinition tmpl worker2 []) [],
                      ''worker1'' \<mapsto>
                        serviceResource tmpl worker2 [] ''worker1TaskDefinition''],
               ''Outputs'' \<mapsto> Obj Map.empty],
          None)"
proof -
  have "Type worker \<noteq> Type worker2"
    by (simp add: worker_def worker2_def)
  moreover have "normalizeKey (Type worker) = normalizeKey (Type worker2)"
    by (simp add: worker_def worker2_def normalizeKey_def alnum_def)
  moreover have "Build tmpl acme_collide empty_walks =
     Inr (Obj [''Parameters'' \<mapsto> Obj Map.empty,
               ''Resources'' \<mapsto>
                 Obj [''worker1TaskDefinition'' \<mapsto>
                        taskDefinitionResource (ContainerDefinition tmpl worker2 []) [],
                      ''worker1'' \<mapsto>
                        serviceResource tmpl worker2 [] ''worker1TaskDefinition''],
               ''Outputs'' \<mapsto> Obj Map.empty],
          None)"
    by (simp add: Build_def acme_collide_def empty_walks_def process_step_worker
        process_step_worker2 task_and_service_def Let_def)
  ultimately show ?thesis
    by blast
qed

subsection \<open>Determinism\<close>

text \<open>Two walks of one map meet the same entries.\<close>

lemma range_of_mset:
  assumes "range_of m xs" and "range_of m ys"
  shows "mset xs = mset ys"
proof -
  from assms have d: "distinct (map fst xs)" "distinct (map fst ys)"
    and m: "map_of xs = map_of ys"
    by (simp_all add: range_of_def)
  have "set xs = set ys"
  proof -
    have "(k, v) \<in> set xs \<longleftrightarrow> (k, v) \<in> set ys" for k v
      using map_of_eq_Some_iff [OF d(1), of k v] map_of_eq_Some_iff [OF d(2), of k v] m
      by simp
    then show ?thesis
      by auto
  qed
  moreover from d have "distinct xs" "distinct ys"
    by (simp_all add: distinct_map)
  ultimately show ?thesis
    by (simp add: set_eq_iff_mset_eq_distinct)
qed

lemma sort_append_mset:
  fixes xs ys zs :: "('a :: linorder) list"
  assumes "mset xs = mset ys"
  shows "sort (xs @ zs) = sort (ys @ zs)"
proof (rule properties_for_sort)
  show "mset (sort (ys @ zs)) = mset (xs @ zs)"
    using assms by simp
  show "sorted (sort (ys @ zs))"
    by simp
qed

lemma alike_upd:
  "alike rs1 rs2 \<Longrightarrow> sort_environments v1 = sort_environments v2 \<Longrightarrow>
   alike (rs1(k \<mapsto> v1)) (rs2(k \<mapsto> v2))"
  by (simp add: alike_def)

lemma alike_refl: "alike rs rs"
  by (simp add: alike_def)

text \<open>
  The task definition is the only resource that holds the environment: two container
  definitions that differ in the order of the environment only give task definitions
  that agree after sorting.
\<close>

lemma sort_taskDefinitionResource:
  assumes "sort (cd_Environment cd1) = sort (cd_Environment cd2)"
    and "cd2 = cd1\<lparr>cd_Environment := cd_Environment cd2\<rparr>"
  shows "sort_environments (taskDefinitionResource cd1 pms)
       = sort_environments (taskDefinitionResource cd2 pms)"
proof -
  have fields: "cd_Name cd2 = cd_Name cd1" "cd_Command cd2 = cd_Command cd1"
    "cd_Cpu cd2 = cd_Cpu cd1" "cd_Image cd2 = cd_Image cd1"
    "cd_Essential cd2 = cd_Essential cd1" "cd_Memory cd2 = cd_Memory cd1"
    "cd_LogConfiguration cd2 = cd_LogConfiguration cd1"
    "cd_DockerLabels cd2 = cd_DockerLabels cd1" "cd_Ulimits cd2 = cd_Ulimits cd1"
    by (subst assms(2), simp)+
  show ?thesis
    using assms(1)
    by (auto simp add: taskDefinitionResource_def Let_def fields fun_eq_iff
        split: option.splits)
qed

lemma ContainerDefinition_walks:
  "ContainerDefinition t p ys
     = (ContainerDefinition t p xs)\<lparr>cd_Environment := cd_Environment (ContainerDefinition t p ys)\<rparr>"
  "cd_Environment (ContainerDefinition t p xs) = xs"
  by (simp_all add: ContainerDefinition_def)

lemma alike_task_and_service:
  assumes "alike rs1 rs2"
    and "sort (cd_Environment cd1) = sort (cd_Environment cd2)"
    and "cd2 = cd1\<lparr>cd_Environment := cd_Environment cd2\<rparr>"
  shows "alike (task_and_service t p key cd1 pms lbs rs1)
               (task_and_service t p key cd2 pms lbs rs2)"
  unfolding task_and_service_def Let_def
  by (intro alike_upd assms(1) sort_taskDefinitionResource [OF assms(2,3)] refl)

lemma expose_alike:
  assumes "alike rs1 rs2" and "cd2 = cd1\<lparr>cd_Environment := cd_Environment cd2\<rparr>"
    and "mset (cd_Environment cd1) = mset (cd_Environment cd2)"
  shows "rel_sum (=)
           (\<lambda>(pms1, lbs1, cd1', rs1') (pms2, lbs2, cd2', rs2').
              pms1 = pms2 \<and> lbs1 = lbs2 \<and> alike rs1' rs2' \<and>
              cd2' = cd1'\<lparr>cd_Environment := cd_Environment cd2'\<rparr> \<and>
              sort (cd_Environment cd1') = sort (cd_Environment cd2'))
           (expose t app p e key cd1 rs1) (expose t app p e key cd2 rs2)"
proof -
  have cd: "cd2\<lparr>cd_Environment := xs\<rparr> = cd1\<lparr>cd_Environment := xs\<rparr>" for xs
    by (subst assms(2)) simp
  show ?thesis
    unfolding expose_def Let_def
    by (auto simp add: cd sort_append_mset [OF assms(3)] split: option.splits
        intro!: alike_upd assms(1))
qed

lemma process_step_alike:
  assumes "alike rs1 rs2" and "mset xs = mset ys"
  shows "rel_sum (=) alike (process_step t app p xs rs1) (process_step t app p ys rs2)"
proof (cases "Exposure p")
  case None
  have "sort xs = sort ys"
    using sort_append_mset [OF assms(2), of "[]"] by simp
  with None show ?thesis
    by (auto simp add: process_step_def ContainerDefinition_walks(2)
        intro!: alike_task_and_service assms(1) ContainerDefinition_walks(1))
next
  case (Some e)
  have "rel_sum (=)
           (\<lambda>(pms1, lbs1, cd1', rs1') (pms2, lbs2, cd2', rs2').
              pms1 = pms2 \<and> lbs1 = lbs2 \<and> alike rs1' rs2' \<and>
              cd2' = cd1'\<lparr>cd_Environment := cd_Environment cd2'\<rparr> \<and>
              sort (cd_Environment cd1') = sort (cd_Environment cd2'))
           (expose t app p e (normalizeKey (Type p)) (ContainerDefinition t p xs) rs1)
           (expose t app p e (normalizeKey (Type p)) (ContainerDefinition t p ys) rs2)"
    by (rule expose_alike [OF assms(1) ContainerDefinition_walks(1)])
      (simp add: ContainerDefinition_walks(2) assms(2))
  then show ?thesis
    using Some
    by (auto simp add: process_step_def Let_def rel_sum.simps
        intro!: alike_task_and_service)
qed

lemma Build_loop_alike:
  assumes "alike rs1 rs2" and "\<forall>j < length ps. mset (o1 (i + j)) = mset (o2 (i + j))"
  shows "rel_sum (=) alike (Build_loop t app ps o1 i rs1) (Build_loop t app ps o2 i rs2)"
  using assms
proof (induction ps arbitrary: i rs1 rs2)
  case Nil
  then show ?case by simp
next
  case (Cons p ps)
  from Cons.prems(2) have head: "mset (o1 i) = mset (o2 i)"
    by force
  from Cons.prems(2) have tail: "\<forall>j < length ps. mset (o1 (Suc i + j)) = mset (o2 (Suc i + j))"
    by force
  note step = process_step_alike [OF Cons.prems(1) head, of t app p]
  show ?case
  proof (cases "process_step t app p (o1 i) rs1")
    case (Inl f)
    with step show ?thesis
      by (auto simp add: rel_sum.simps)
  next
    case (Inr rs1')
    with step obtain rs2' where "process_step t app p (o2 i) rs2 = Inr rs2'" "alike rs1' rs2'"
      by (auto simp add: rel_sum.simps)
    with Inr Cons.IH [OF this(2) tail] show ?thesis
      by simp
  qed
qed

text \<open>
  Claim C3, as the source has it. \<^verbatim>\<open>ContainerDefinition\<close> fills the environment
  list in the order in which \<^verbatim>\<open>range\<close> walks \<^verbatim>\<open>p.Env\<close>, and does not sort it. Two
  runs of \<^verbatim>\<open>Build\<close> on one application end alike (both panic, or both return), and
  the two documents are equal once the entries of every environment list are sorted as
  well: they differ at most in the order of the entries of environment lists.
\<close>

theorem deterministic_up_to_environment_order:
  assumes "walks app o1" and "walks app o2"
  shows "sorted_result (Build t app o1) = sorted_result (Build t app o2)"
proof -
  have "\<forall>j < length (Processes app). mset (o1 (0 + j)) = mset (o2 (0 + j))"
    using assms by (auto simp add: walks_def intro: range_of_mset)
  with alike_refl have "rel_sum (=) alike
      (Build_loop t app (Processes app) o1 0 Map.empty)
      (Build_loop t app (Processes app) o2 0 Map.empty)"
    by (rule Build_loop_alike)
  then show ?thesis
    by (auto simp add: Build_def sorted_result_def rel_sum.simps alike_def fun_eq_iff)
qed

lemma walks_batch: "walks batch walk_ab" "walks batch walk_ba"
  by (auto simp add: walks_def batch_def job_def walk_ab_def walk_ba_def range_of_def fun_eq_iff)

theorem deterministic_up_to_environment_order_witness:
  "walks batch walk_ab \<and> walks batch walk_ba \<and>
   sorted_result (Build tmpl batch walk_ab) = sorted_result (Build tmpl batch walk_ba)"
  using deterministic_up_to_environment_order [OF walks_batch] walks_batch
  by simp

lemma normalizeKey_job: "normalizeKey ''job'' = ''job''"
  by (simp add: normalizeKey_def alnum_def)

lemma process_step_job:
  "process_step t app job ord rs =
     Inr (task_and_service t job ''job'' (ContainerDefinition t job ord) [] [] rs)"
  by (simp add: process_step_unexposed job_def normalizeKey_job)

lemma environment_of_job:
  "environment_of (Build t batch ords) ''jobTaskDefinition'' = Some (KeyValuePairs (ords 0))"
proof -
  obtain c where c:
    "container_of (taskDefinitionResource (ContainerDefinition t job (ords 0)) []) = Some c"
    "field c ''Environment''
       = Some (KeyValuePairs (cd_Environment (ContainerDefinition t job (ords 0))))"
    using container_of_taskDefinitionResource by blast
  have "resources_of (Build t batch ords) ''jobTaskDefinition''
      = Some (taskDefinitionResource (ContainerDefinition t job (ords 0)) [])"
    by (simp add: Build_def resources_of_def batch_def process_step_job task_and_service_apply)
  with c show ?thesis
    by (simp add: environment_of_def ContainerDefinition_def)
qed

text \<open>
  Claim C3 as the spec states it fails: the process \<^verbatim>\<open>job\<close> has the environment
  \<^verbatim>\<open>{A: 1, B: 2}\<close>; a run that meets \<^verbatim>\<open>A\<close> first and a run that meets \<^verbatim>\<open>B\<close>
  first return documents whose environment lists differ in order, and documents are
  compared with their lists in order.
\<close>

theorem determinism_counterexample:
  "walks batch walk_ab \<and> walks batch walk_ba \<and>
   environment_of (Build tmpl batch walk_ab) ''jobTaskDefinition''
     = Some (KeyValuePairs [(''A'', ''1''), (''B'', ''2'')]) \<and>
   environment_of (Build tmpl batch walk_ba) ''jobTaskDefinition''
     = Some (KeyValuePairs [(''B'', ''2''), (''A'', ''1'')]) \<and>
   Build tmpl batch walk_ab \<noteq> Build tmpl batch walk_ba"
proof -
  have ab: "environment_of (Build tmpl batch walk_ab) ''jobTaskDefinition''
      = Some (KeyValuePairs [(''A'', ''1''), (''B'', ''2'')])"
    by (simp add: environment_of_job walk_ab_def)
  have ba: "environment_of (Build tmpl batch walk_ba) ''jobTaskDefinition''
      = Some (KeyValuePairs [(''B'', ''2''), (''A'', ''1'')])"
    by (simp add: environment_of_job walk_ba_def)
  from ab ba have "environment_of (Build tmpl batch walk_ab) ''jobTaskDefinition''
      \<noteq> environment_of (Build tmpl batch walk_ba) ''jobTaskDefinition''"
    by simp
  then have "Build tmpl batch walk_ab \<noteq> Build tmpl batch walk_ba"
    by auto
  with walks_batch ab ba show ?thesis
    by simp
qed

subsection \<open>What a turn writes, and what it leaves alone\<close>

lemma expose_loadBalancer:
  assumes "expose t app p e key cd rs = Inr (pms, lbs, cd', rs')"
  shows "rs' (key @ ''LoadBalancer'') =
           Some (loadBalancerResource
                   (if External e then schemeExternal else schemeInternal)
                   (if External e then ExternalSecurityGroupID t else InternalSecurityGroupID t)
                   (if External e then ExternalSubnetIDs t else InternalSubnetIDs t)
                   (make_listeners e (key @ ''8080InstancePort'')) p)"
  using assms
  by (auto simp add: expose_def Let_def fmt_d_8080 ContainerPort_def
      split: if_splits option.splits)

lemma process_step_loadBalancer:
  assumes "Exposure p = Some e" and "process_step t app p ord rs = Inr rs'"
  shows "rs' (normalizeKey (Type p) @ ''LoadBalancer'') = Some (loadBalancer_of t p e)"
proof -
  from assms obtain pms lbs cd' rs1 where
    ex: "expose t app p e (normalizeKey (Type p)) (ContainerDefinition t p ord) rs
           = Inr (pms, lbs, cd', rs1)"
    and rs': "rs' = task_and_service t p (normalizeKey (Type p)) cd' pms lbs rs1"
    by (rule process_step_exposed)
  from expose_loadBalancer [OF ex] show ?thesis
    by (simp add: rs' task_and_service_apply loadBalancer_of_def)
qed

lemma process_step_service:
  assumes "process_step t app p ord rs = Inr rs'"
  shows "\<exists>lbs. rs' (normalizeKey (Type p))
                  = Some (serviceResource t p lbs (normalizeKey (Type p) @ ''TaskDefinition'')) \<and>
               (lbs \<noteq> [] \<longleftrightarrow> Exposure p \<noteq> None)"
proof (cases "Exposure p")
  case None
  with assms show ?thesis
    by (auto simp add: process_step_unexposed task_and_service_apply)
next
  case (Some e)
  from Some assms obtain pms lbs cd' rs1 where
    ex: "expose t app p e (normalizeKey (Type p)) (ContainerDefinition t p ord) rs
           = Inr (pms, lbs, cd', rs1)"
    and rs': "rs' = task_and_service t p (normalizeKey (Type p)) cd' pms lbs rs1"
    by (rule process_step_exposed)
  have "lbs \<noteq> []"
    using expose_Inr(2) [OF ex] by simp
  then show ?thesis
    using Some by (auto simp add: rs' task_and_service_apply)
qed

lemma expose_frame:
  assumes "expose t app p e key cd rs = Inr (pms, lbs, cd', rs')"
    and "k \<noteq> key @ ''8080InstancePort''" and "k \<noteq> key @ ''LoadBalancer''"
    and "Type p = ''web'' \<longrightarrow> k \<noteq> ''CNAME''"
  shows "rs' k = rs k"
  using expose_Inr(4) [OF assms(1)] assms(2-) by auto

lemma process_step_frame:
  assumes "process_step t app p ord rs = Inr rs'" and "k \<notin> written_ids p"
  shows "rs' k = rs k"
proof (cases "Exposure p")
  case None
  with assms show ?thesis
    by (auto simp add: process_step_unexposed task_and_service_apply written_ids_def Let_def)
next
  case (Some e)
  from Some assms(1) obtain pms lbs cd' rs1 where
    ex: "expose t app p e (normalizeKey (Type p)) (ContainerDefinition t p ord) rs
           = Inr (pms, lbs, cd', rs1)"
    and rs': "rs' = task_and_service t p (normalizeKey (Type p)) cd' pms lbs rs1"
    by (rule process_step_exposed)
  from assms(2) Some have k: "k \<noteq> normalizeKey (Type p) @ ''TaskDefinition''"
    "k \<noteq> normalizeKey (Type p)" "k \<noteq> normalizeKey (Type p) @ ''8080InstancePort''"
    "k \<noteq> normalizeKey (Type p) @ ''LoadBalancer''" "Type p = ''web'' \<longrightarrow> k \<noteq> ''CNAME''"
    by (auto simp add: written_ids_def Let_def)
  have "rs' k = rs1 k"
    using k(1,2) by (simp add: rs' task_and_service_apply)
  also have "rs1 k = rs k"
    using ex k(3,4,5) by (rule expose_frame)
  finally show ?thesis .
qed

text \<open>The ids of \<open>written_ids\<close> are the ones that a turn adds to the map.\<close>

lemma process_step_dom:
  assumes "process_step t app p ord rs = Inr rs'"
  shows "dom rs' = dom rs \<union> written_ids p"
proof (cases "Exposure p")
  case None
  with assms show ?thesis
    by (auto simp add: process_step_unexposed task_and_service_def written_ids_def Let_def)
next
  case (Some e)
  from Some assms(1) obtain pms lbs cd' rs1 where
    ex: "expose t app p e (normalizeKey (Type p)) (ContainerDefinition t p ord) rs
           = Inr (pms, lbs, cd', rs1)"
    and rs': "rs' = task_and_service t p (normalizeKey (Type p)) cd' pms lbs rs1"
    by (rule process_step_exposed)
  from expose_Inr(4) [OF ex]
  have "dom rs1 = dom rs \<union> {normalizeKey (Type p) @ ''8080InstancePort'',
                             normalizeKey (Type p) @ ''LoadBalancer''} \<union>
                   (if Type p = ''web'' then {''CNAME''} else {})"
    by auto
  then show ?thesis
    using Some by (auto simp add: rs' task_and_service_def written_ids_def Let_def)
qed

lemma Build_loop_frame:
  "Build_loop t app ps ords i rs = Inr rs' \<Longrightarrow> \<forall>q \<in> set ps. k \<notin> written_ids q \<Longrightarrow>
   rs' k = rs k"
proof (induction ps arbitrary: i rs)
  case Nil
  then show ?case by simp
next
  case (Cons p ps)
  from Cons.prems(1) obtain rs1 where
    step: "process_step t app p (ords i) rs = Inr rs1"
    and rest: "Build_loop t app ps ords (Suc i) rs1 = Inr rs'"
    by (auto split: sum.splits)
  from Cons.prems(2) have "k \<notin> written_ids p" "\<forall>q \<in> set ps. k \<notin> written_ids q"
    by simp_all
  with Cons.IH [OF rest] process_step_frame [OF step] show ?case
    by simp
qed

text \<open>
  The run of the loop up to and including the turn of a process, and what the later
  turns leave of it: an id that no later process writes holds what that turn left.
\<close>

lemma Build_loop_split:
  assumes "Build_loop t app (ps1 @ p # ps2) ords i rs = Inr rs'"
  obtains rs0 rs1 where
    "Build_loop t app ps1 ords i rs = Inr rs0"
    and "process_step t app p (ords (i + length ps1)) rs0 = Inr rs1"
    and "Build_loop t app ps2 ords (Suc (i + length ps1)) rs1 = Inr rs'"
  using assms by (auto simp add: Build_loop_append split: sum.splits)

lemma Build_last_write:
  assumes "Build t app ords = Inr (doc, err)"
    and "field doc ''Resources'' = Some (Obj rs)"
    and "Processes app = ps1 @ p # ps2"
  shows "\<exists>rs0 rs1.
           process_step t app p (ords (length ps1)) rs0 = Inr rs1 \<and>
           (\<forall>k. (\<forall>q \<in> set ps2. k \<notin> written_ids q) \<longrightarrow> rs k = rs1 k)"
proof -
  from Build_resources [OF assms(1,2)] assms(3)
  have "Build_loop t app (ps1 @ p # ps2) ords 0 Map.empty = Inr rs"
    by simp
  then obtain rs0 rs1 where
    step: "process_step t app p (ords (0 + length ps1)) rs0 = Inr rs1"
    and rest: "Build_loop t app ps2 ords (Suc (0 + length ps1)) rs1 = Inr rs"
    by (rule Build_loop_split)
  have "rs k = rs1 k" if "\<forall>q \<in> set ps2. k \<notin> written_ids q" for k
    using rest that by (rule Build_loop_frame)
  with step show ?thesis
    by auto
qed

lemma written_ids_worker: "written_ids worker = {''worker1TaskDefinition'', ''worker1''}"
  by (simp add: written_ids_def worker_def normalizeKey_worker)

subsection \<open>Referential integrity\<close>

text \<open>The references that \<^verbatim>\<open>Build\<close> writes itself.\<close>

lemma no_dangling_upd:
  "no_dangling rs \<Longrightarrow> (\<And>x. refers_built v x \<Longrightarrow> x = k \<or> x \<in> dom rs) \<Longrightarrow>
   no_dangling (rs(k \<mapsto> v))"
  unfolding no_dangling_def by (auto split: if_splits)

lemma built_instancePortResource: "\<not> refers_built (instancePortResource t) x"
  by (auto simp add: instancePortResource_def split: if_splits)

lemma built_loadBalancerResource:
  "refers_built (loadBalancerResource scheme sg subnets (make_listeners e ip) p) x \<Longrightarrow> x = ip"
  by (auto simp add: loadBalancerResource_def make_listeners_def Let_def
      split: if_splits ExposureType.splits)

lemma built_cnameResource: "refers_built (cnameResource app zi zn lb) x \<Longrightarrow> x = lb"
  by (auto simp add: cnameResource_def split: if_splits)

lemma built_taskDefinitionResource:
  "refers_built (taskDefinitionResource cd pms) x \<Longrightarrow> refers_built (Arr pms) x"
  by (auto simp add: taskDefinitionResource_def Let_def split: if_splits option.splits)

lemma built_serviceResource:
  "refers_built (serviceResource t p lbs td) x \<Longrightarrow> x = td \<or> refers_built (Arr lbs) x"
  by (auto simp add: serviceResource_def Let_def split: if_splits option.splits)

lemma no_dangling_task_and_service:
  assumes "no_dangling rs"
    and "\<And>x. refers_built (Arr pms) x \<Longrightarrow> x \<in> dom rs"
    and "\<And>x. refers_built (Arr lbs) x \<Longrightarrow> x \<in> dom rs"
  shows "no_dangling (task_and_service t p key cd pms lbs rs)"
  unfolding task_and_service_def Let_def
  by (intro no_dangling_upd assms(1))
    (auto dest!: built_taskDefinitionResource built_serviceResource assms(2,3))

text \<open>
  Each write of the exposure block refers only to ids written before it: the load
  balancer to the instance port, the CNAME record to the load balancer.
\<close>

lemma no_dangling_expose:
  assumes "no_dangling rs" and "expose t app p e key cd rs = Inr (pms, lbs, cd', rs')"
  shows "no_dangling rs'"
proof -
  let ?ip = "key @ ''8080InstancePort''"
  let ?lb = "key @ ''LoadBalancer''"
  let ?rs1 = "rs(?ip \<mapsto> instancePortResource t)"
  have c1: "no_dangling ?rs1"
    by (rule no_dangling_upd [OF assms(1)]) (simp add: built_instancePortResource)
  have c2: "no_dangling (?rs1(?lb \<mapsto> loadBalancerResource sch sg sn (make_listeners e ?ip) p))"
    for sch sg sn
    by (rule no_dangling_upd [OF c1]) (auto dest!: built_loadBalancerResource)
  have c3: "no_dangling (?rs1(?lb \<mapsto> loadBalancerResource sch sg sn (make_listeners e ?ip) p,
      ''CNAME'' \<mapsto> cnameResource app zi zn ?lb))"
    for sch sg sn zi zn
    by (rule no_dangling_upd [OF c2]) (auto dest!: built_cnameResource)
  from expose_Inr(4) [OF assms(2)] show ?thesis
    using c2 c3 by auto
qed

lemma dom_expose:
  assumes "expose t app p e key cd rs = Inr (pms, lbs, cd', rs')"
  shows "key @ ''8080InstancePort'' \<in> dom rs'" and "key @ ''LoadBalancer'' \<in> dom rs'"
  using expose_Inr(4) [OF assms] by auto

lemma no_dangling_step:
  assumes "no_dangling rs" and "process_step t app p ord rs = Inr rs'"
  shows "no_dangling rs'"
proof (cases "Exposure p")
  case None
  with assms show ?thesis
    by (auto simp add: process_step_def Let_def intro!: no_dangling_task_and_service)
next
  case (Some e)
  from Some assms(2) obtain pms lbs cd' rs1 where
    ex: "expose t app p e (normalizeKey (Type p)) (ContainerDefinition t p ord) rs
           = Inr (pms, lbs, cd', rs1)"
    and rs': "rs' = task_and_service t p (normalizeKey (Type p)) cd' pms lbs rs1"
    by (rule process_step_exposed)
  have "no_dangling rs1"
    using no_dangling_expose [OF assms(1) ex] .
  moreover have "refers_built (Arr pms) x \<Longrightarrow> x \<in> dom rs1" for x
    using dom_expose [OF ex] by (auto simp add: expose_Inr(1) [OF ex] split: if_splits)
  moreover have "refers_built (Arr lbs) x \<Longrightarrow> x \<in> dom rs1" for x
    using dom_expose [OF ex] by (auto simp add: expose_Inr(2) [OF ex] split: if_splits)
  ultimately show ?thesis
    unfolding rs' by (rule no_dangling_task_and_service)
qed

lemma no_dangling_loop:
  "no_dangling rs \<Longrightarrow> Build_loop t app ps ords i rs = Inr rs' \<Longrightarrow> no_dangling rs'"
proof (induction ps arbitrary: i rs)
  case Nil
  then show ?case by simp
next
  case (Cons p ps)
  then show ?case
    by (auto split: sum.splits dest: no_dangling_step)
qed

lemma no_dangling_empty: "no_dangling Map.empty"
  by (simp add: no_dangling_def)

text \<open>
  All references. Those of a task definition are the references of its port mappings,
  the label \<^verbatim>\<open>Ref\<close> of its container and the option \<^verbatim>\<open>Ref\<close> of its logging
  configuration; the other resources have the references that \<^verbatim>\<open>Build\<close> writes.
\<close>

lemma no_dangling_but_upd:
  "no_dangling_but C rs \<Longrightarrow>
   (\<And>x. refers v x \<Longrightarrow>
      x = k \<or> x \<in> dom rs \<or>
      (field v ''Type'' = Some (Str ''AWS::ECS::TaskDefinition'') \<and> x \<in> C)) \<Longrightarrow>
   no_dangling_but C (rs(k \<mapsto> v))"
  unfolding no_dangling_but_def by (auto split: if_splits)

lemma refers_instancePortResource: "\<not> refers (instancePortResource t) x"
  by (auto simp add: instancePortResource_def split: if_splits)

lemma refers_loadBalancerResource:
  "refers (loadBalancerResource scheme sg subnets (make_listeners e ip) p) x \<Longrightarrow> x = ip"
  by (auto simp add: loadBalancerResource_def make_listeners_def Let_def
      split: if_splits ExposureType.splits)

lemma refers_cnameResource: "refers (cnameResource app zi zn lb) x \<Longrightarrow> x = lb"
  by (auto simp add: cnameResource_def split: if_splits)

lemma refers_taskDefinitionResource:
  "refers (taskDefinitionResource cd pms) x \<Longrightarrow>
   refers (Arr pms) x \<or> cd_DockerLabels cd ''Ref'' = Some x \<or>
   (\<exists>lc. cd_LogConfiguration cd = Some lc \<and> Options lc ''Ref'' = Some x)"
  by (auto simp add: taskDefinitionResource_def Let_def split: if_splits option.splits)

lemma refers_serviceResource:
  "refers (serviceResource t p lbs td) x \<Longrightarrow> x = td \<or> refers (Arr lbs) x"
  by (auto simp add: serviceResource_def Let_def split: if_splits option.splits)

lemma no_dangling_but_task_and_service:
  assumes "no_dangling_but C rs"
    and "\<And>x. refers (Arr pms) x \<Longrightarrow> x \<in> dom rs"
    and "\<And>x. refers (Arr lbs) x \<Longrightarrow> x \<in> dom rs"
    and "\<And>x. cd_DockerLabels cd ''Ref'' = Some x \<Longrightarrow> x \<in> C"
    and "\<And>lc x. cd_LogConfiguration cd = Some lc \<Longrightarrow> Options lc ''Ref'' = Some x \<Longrightarrow> x \<in> C"
  shows "no_dangling_but C (task_and_service t p key cd pms lbs rs)"
proof -
  let ?td = "key @ ''TaskDefinition''"
  have c1: "no_dangling_but C (rs(?td \<mapsto> taskDefinitionResource cd pms))"
  proof (rule no_dangling_but_upd [OF assms(1)])
    fix x
    assume "refers (taskDefinitionResource cd pms) x"
    from refers_taskDefinitionResource [OF this] assms(2,4,5)
    show "x = ?td \<or> x \<in> dom rs \<or>
      (field (taskDefinitionResource cd pms) ''Type'' = Some (Str ''AWS::ECS::TaskDefinition'') \<and>
       x \<in> C)"
      by (auto simp add: taskDefinitionResource_Type)
  qed
  have "no_dangling_but C (rs(?td \<mapsto> taskDefinitionResource cd pms,
      key \<mapsto> serviceResource t p lbs ?td))"
  proof (rule no_dangling_but_upd [OF c1])
    fix x
    assume "refers (serviceResource t p lbs ?td) x"
    from refers_serviceResource [OF this] assms(3)
    show "x = key \<or> x \<in> dom (rs(?td \<mapsto> taskDefinitionResource cd pms)) \<or>
      (field (serviceResource t p lbs ?td) ''Type'' = Some (Str ''AWS::ECS::TaskDefinition'') \<and>
       x \<in> C)"
      by auto
  qed
  then show ?thesis
    by (simp add: task_and_service_def Let_def)
qed

lemma no_dangling_but_expose:
  assumes "no_dangling_but C rs" and "expose t app p e key cd rs = Inr (pms, lbs, cd', rs')"
  shows "no_dangling_but C rs'"
proof -
  let ?ip = "key @ ''8080InstancePort''"
  let ?lb = "key @ ''LoadBalancer''"
  let ?rs1 = "rs(?ip \<mapsto> instancePortResource t)"
  have c1: "no_dangling_but C ?rs1"
    by (rule no_dangling_but_upd [OF assms(1)]) (simp add: refers_instancePortResource)
  have c2: "no_dangling_but C
      (?rs1(?lb \<mapsto> loadBalancerResource sch sg sn (make_listeners e ?ip) p))"
    for sch sg sn
    by (rule no_dangling_but_upd [OF c1]) (auto dest!: refers_loadBalancerResource)
  have c3: "no_dangling_but C
      (?rs1(?lb \<mapsto> loadBalancerResource sch sg sn (make_listeners e ?ip) p,
            ''CNAME'' \<mapsto> cnameResource app zi zn ?lb))"
    for sch sg sn zi zn
    by (rule no_dangling_but_upd [OF c2]) (auto dest!: refers_cnameResource)
  from expose_Inr(4) [OF assms(2)] show ?thesis
    using c2 c3 by auto
qed

lemma no_dangling_but_step:
  assumes "no_dangling_but C rs" and "process_step t app p ord rs = Inr rs'"
    and "\<And>x. Labels p ''Ref'' = Some x \<Longrightarrow> x \<in> C"
    and "\<And>lc x. LogConfiguration t = Some lc \<Longrightarrow> Options lc ''Ref'' = Some x \<Longrightarrow> x \<in> C"
  shows "no_dangling_but C rs'"
proof (cases "Exposure p")
  case None
  with assms(2)
  have rs': "rs' = task_and_service t p (normalizeKey (Type p)) (ContainerDefinition t p ord)
      [] [] rs"
    by (simp add: process_step_unexposed)
  show ?thesis
    unfolding rs' using assms(1)
    by (rule no_dangling_but_task_and_service)
      (auto simp add: ContainerDefinition_def dest: assms(3,4))
next
  case (Some e)
  from Some assms(2) obtain pms lbs cd' rs1 where
    ex: "expose t app p e (normalizeKey (Type p)) (ContainerDefinition t p ord) rs
           = Inr (pms, lbs, cd', rs1)"
    and rs': "rs' = task_and_service t p (normalizeKey (Type p)) cd' pms lbs rs1"
    by (rule process_step_exposed)
  have cd': "cd_DockerLabels cd' = Labels p" "cd_LogConfiguration cd' = LogConfiguration t"
    by (simp_all add: expose_Inr(3) [OF ex] ContainerDefinition_def)
  have "no_dangling_but C rs1"
    using no_dangling_but_expose [OF assms(1) ex] .
  moreover have "refers (Arr pms) x \<Longrightarrow> x \<in> dom rs1" for x
    using dom_expose [OF ex] by (auto simp add: expose_Inr(1) [OF ex] split: if_splits)
  moreover have "refers (Arr lbs) x \<Longrightarrow> x \<in> dom rs1" for x
    using dom_expose [OF ex] by (auto simp add: expose_Inr(2) [OF ex] split: if_splits)
  moreover have "cd_DockerLabels cd' ''Ref'' = Some x \<Longrightarrow> x \<in> C" for x
    using assms(3) by (simp add: cd')
  moreover have "cd_LogConfiguration cd' = Some lc \<Longrightarrow> Options lc ''Ref'' = Some x \<Longrightarrow> x \<in> C"
    for lc x
    using assms(4) by (simp add: cd')
  ultimately show ?thesis
    unfolding rs' by (rule no_dangling_but_task_and_service)
qed

lemma no_dangling_but_loop:
  assumes "\<And>p x. p \<in> set ps \<Longrightarrow> Labels p ''Ref'' = Some x \<Longrightarrow> x \<in> C"
    and "\<And>lc x. LogConfiguration t = Some lc \<Longrightarrow> Options lc ''Ref'' = Some x \<Longrightarrow> x \<in> C"
  shows "no_dangling_but C rs \<Longrightarrow> Build_loop t app ps ords i rs = Inr rs' \<Longrightarrow>
         no_dangling_but C rs'"
  using assms(1)
proof (induction ps arbitrary: i rs)
  case Nil
  then show ?case by simp
next
  case (Cons p ps)
  from Cons.prems(2) obtain rs1 where
    step: "process_step t app p (ords i) rs = Inr rs1"
    and rest: "Build_loop t app ps ords (Suc i) rs1 = Inr rs'"
    by (auto split: sum.splits)
  have "no_dangling_but C rs1"
    using Cons.prems(1) step
  proof (rule no_dangling_but_step)
    show "Labels p ''Ref'' = Some x \<Longrightarrow> x \<in> C" for x
      using Cons.prems(3) [of p x] by simp
    show "LogConfiguration t = Some lc \<Longrightarrow> Options lc ''Ref'' = Some x \<Longrightarrow> x \<in> C" for lc x
      by (rule assms(2))
  qed
  then show ?case
    using rest
  proof (rule Cons.IH)
    show "q \<in> set ps \<Longrightarrow> Labels q ''Ref'' = Some x \<Longrightarrow> x \<in> C" for q x
      using Cons.prems(3) [of q x] by simp
  qed
qed

lemma no_dangling_but_Build:
  assumes "Build t app ords = Inr (doc, err)" and "field doc ''Resources'' = Some (Obj rs)"
  shows "no_dangling_but (copied_refs t app) rs"
proof (rule no_dangling_but_loop [OF _ _ _ Build_resources [OF assms]])
  show "no_dangling_but (copied_refs t app) Map.empty"
    by (simp add: no_dangling_but_def)
  show "p \<in> set (Processes app) \<Longrightarrow> Labels p ''Ref'' = Some x \<Longrightarrow> x \<in> copied_refs t app"
    for p x
    by (auto simp add: copied_refs_def)
  show "LogConfiguration t = Some lc \<Longrightarrow> Options lc ''Ref'' = Some x \<Longrightarrow> x \<in> copied_refs t app"
    for lc x
    by (simp add: copied_refs_def)
qed

lemma refers_Properties:
  "field r ''Properties'' = Some props \<Longrightarrow> refers props x \<Longrightarrow> refers r x"
  by (cases r) (auto simp add: field_def)

lemma built_Properties:
  "field r ''Properties'' = Some props \<Longrightarrow> refers_built props x \<Longrightarrow> refers_built r x"
  by (cases r) (auto simp add: field_def)

text \<open>
  Claim C4, as the source has it. The docker labels of a process and the options of the
  logging configuration of the template are copied into the container definition as they
  are, and a label or an option with the key \<^verbatim>\<open>Ref\<close> is rendered as a reference. In
  every document that \<^verbatim>\<open>Build\<close> returns, every reference that \<^verbatim>\<open>Build\<close> writes
  itself (\<open>refers_built\<close>: a \<^verbatim>\<open>Ref\<close> in a \<^verbatim>\<open>map[string]string\<close>, an
  \<^verbatim>\<open>Fn::GetAtt\<close>) anywhere inside the properties of a resource names a key of the
  Resources mapping of that document. And every reference at all (\<open>refers\<close>) inside the
  properties of a resource names a key of the Resources mapping, unless the resource is a
  task definition and the name is the value of the label \<^verbatim>\<open>Ref\<close> of a process of the
  application or of the option \<^verbatim>\<open>Ref\<close> of the logging configuration.
\<close>

theorem referential_integrity_but_copies:
  assumes "Build t app ords = Inr (doc, err)"
    and "field doc ''Resources'' = Some (Obj rs)"
    and "rs k = Some r"
    and "field r ''Properties'' = Some props"
  shows "(refers_built props x \<longrightarrow> x \<in> dom rs) \<and>
         (refers props x \<longrightarrow>
            x \<in> dom rs \<or>
            (field r ''Type'' = Some (Str ''AWS::ECS::TaskDefinition'') \<and>
             ((\<exists>p \<in> set (Processes app). Labels p ''Ref'' = Some x) \<or>
              (\<exists>lc. LogConfiguration t = Some lc \<and> Options lc ''Ref'' = Some x))))"
proof (intro conjI impI)
  assume "refers_built props x"
  with assms(4) have "refers_built r x"
    by (rule built_Properties)
  moreover have "no_dangling rs"
    using no_dangling_loop [OF no_dangling_empty Build_resources [OF assms(1,2)]] .
  ultimately show "x \<in> dom rs"
    using assms(3) by (auto simp add: no_dangling_def)
next
  assume "refers props x"
  with assms(4) have "refers r x"
    by (rule refers_Properties)
  with no_dangling_but_Build [OF assms(1,2)] assms(3)
  have "x \<in> dom rs \<or>
        (field r ''Type'' = Some (Str ''AWS::ECS::TaskDefinition'') \<and> x \<in> copied_refs t app)"
    unfolding no_dangling_but_def by blast
  then show "x \<in> dom rs \<or>
            (field r ''Type'' = Some (Str ''AWS::ECS::TaskDefinition'') \<and>
             ((\<exists>p \<in> set (Processes app). Labels p ''Ref'' = Some x) \<or>
              (\<exists>lc. LogConfiguration t = Some lc \<and> Options lc ''Ref'' = Some x)))"
    by (simp add: copied_refs_def)
qed

theorem referential_integrity_but_copies_witness:
  "\<exists>doc rs r props.
     Build tmpl acme empty_walks = Inr (doc, None) \<and>
     field doc ''Resources'' = Some (Obj rs) \<and>
     rs ''web'' = Some r \<and>
     field r ''Properties'' = Some props \<and>
     refers_built props ''webTaskDefinition'' \<and>
     refers props ''webTaskDefinition'' \<and>
     ''webTaskDefinition'' \<in> dom rs"
proof -
  obtain doc where run: "Build tmpl acme empty_walks = Inr (doc, None)"
    using Build_acme_returns by blast
  obtain rs where rs: "field doc ''Resources'' = Some (Obj rs)"
    using Build_has_resources [OF run] by blast
  have "\<exists>lbs. rs ''web'' = Some (serviceResource tmpl web lbs ''webTaskDefinition'')"
    using Build_resources [OF run rs]
    by (auto simp add: acme_def empty_walks_def process_step_web process_step_worker
        task_and_service_apply)
  then obtain lbs where r: "rs ''web'' = Some (serviceResource tmpl web lbs ''webTaskDefinition'')"
    by blast
  obtain props where props:
    "field (serviceResource tmpl web lbs ''webTaskDefinition'') ''Properties'' = Some props"
    "field props ''TaskDefinition'' = Some (StrMap [''Ref'' \<mapsto> ''webTaskDefinition''])"
    using serviceResource_fields(3) by blast
  from field_SomeD [OF props(2)] have built: "refers_built props ''webTaskDefinition''"
    by (auto intro: refers_built.Obj)
  from field_SomeD [OF props(2)] have refers: "refers props ''webTaskDefinition''"
    by (auto intro: refers.Obj)
  from referential_integrity_but_copies [OF run rs r props(1), of "''webTaskDefinition''"]
    run rs r props(1) built refers
  show ?thesis
    by blast
qed

lemma process_step_labelled:
  "process_step t app labelled [] rs =
     Inr (task_and_service t labelled ''worker1'' (ContainerDefinition t labelled []) [] [] rs)"
  by (simp add: process_step_unexposed labelled_def worker_def normalizeKey_worker)

text \<open>A label or an option with the key \<^verbatim>\<open>Ref\<close> is a reference of the task definition.\<close>

lemma refers_container:
  assumes "field r ''Properties'' = Some props" and "container_of r = Some c"
    and "field c k = Some v" and "refers v x"
  shows "refers props x"
proof -
  from assms(1,2) have "field props ''ContainerDefinitions'' = Some (Arr [c])"
    by (auto simp add: container_of_def split: option.splits val.splits list.splits)
  then obtain m where m: "props = Obj m" "m ''ContainerDefinitions'' = Some (Arr [c])"
    using field_SomeD by blast
  from field_SomeD [OF assms(3)] assms(4) have "refers c x"
    by (auto intro: refers.Obj)
  then have "refers (Arr [c]) x"
    by simp
  with m(2) show ?thesis
    unfolding m(1) by (rule refers.Obj)
qed

lemma container_copies:
  "\<exists>props c.
     field (taskDefinitionResource cd pms) ''Properties'' = Some props \<and>
     container_of (taskDefinitionResource cd pms) = Some c \<and>
     field c ''DockerLabels'' = Some (StrPtrMap (cd_DockerLabels cd)) \<and>
     field c ''LogConfiguration'' = map_option LogConf (cd_LogConfiguration cd)"
  by (simp add: container_of_def taskDefinitionResource_def field_def Let_def
      split: option.split)

lemma refers_label:
  assumes "cd_DockerLabels cd ''Ref'' = Some x"
  shows "\<exists>props. field (taskDefinitionResource cd pms) ''Properties'' = Some props \<and>
                 refers props x"
proof -
  obtain props c where c: "field (taskDefinitionResource cd pms) ''Properties'' = Some props"
    "container_of (taskDefinitionResource cd pms) = Some c"
    "field c ''DockerLabels'' = Some (StrPtrMap (cd_DockerLabels cd))"
    using container_copies by blast
  from assms have "refers (StrPtrMap (cd_DockerLabels cd)) x"
    by simp
  with c have "refers props x"
    by (rule refers_container)
  with c(1) show ?thesis
    by blast
qed

lemma refers_option:
  assumes "cd_LogConfiguration cd = Some lc" and "Options lc ''Ref'' = Some x"
  shows "\<exists>props. field (taskDefinitionResource cd pms) ''Properties'' = Some props \<and>
                 refers props x"
proof -
  obtain props c where c: "field (taskDefinitionResource cd pms) ''Properties'' = Some props"
    "container_of (taskDefinitionResource cd pms) = Some c"
    "field c ''LogConfiguration'' = map_option LogConf (cd_LogConfiguration cd)"
    using container_copies by blast
  from c(3) assms(1) have "field c ''LogConfiguration'' = Some (LogConf lc)"
    by simp
  moreover from assms(2) have "refers (LogConf lc) x"
    by simp
  ultimately have "refers props x"
    by (rule refers_container [OF c(1,2)])
  with c(1) show ?thesis
    by blast
qed

text \<open>
  Claim C4 as the spec states it fails. The process \<^verbatim>\<open>worker-1\<close> with the docker
  label \<^verbatim>\<open>Ref\<close> of value \<^verbatim>\<open>ghost\<close> gives a document of two resources, the task
  definition and the service of the process; the properties of the task definition hold
  the reference \<^verbatim>\<open>{"Ref": "ghost"}\<close>, and no resource has that id. The same holds for
  the process without label and a template whose logging configuration has the option
  \<^verbatim>\<open>Ref\<close>.
\<close>

theorem referential_integrity_counterexample:
  "(\<exists>doc rs r props.
      Build tmpl acme_labelled empty_walks = Inr (doc, None) \<and>
      field doc ''Resources'' = Some (Obj rs) \<and>
      rs ''worker1TaskDefinition'' = Some r \<and>
      field r ''Properties'' = Some props \<and>
      refers props ''ghost'' \<and>
      dom rs = {''worker1TaskDefinition'', ''worker1''} \<and>
      ''ghost'' \<notin> dom rs) \<and>
   (\<exists>doc rs r props.
      Build tmpl_logs acme_worker empty_walks = Inr (doc, None) \<and>
      field doc ''Resources'' = Some (Obj rs) \<and>
      rs ''worker1TaskDefinition'' = Some r \<and>
      field r ''Properties'' = Some props \<and>
      refers props ''ghost'' \<and>
      dom rs = {''worker1TaskDefinition'', ''worker1''} \<and>
      ''ghost'' \<notin> dom rs)"
proof -
  have shape: "\<exists>doc rs r props.
      Build t app empty_walks = Inr (doc, None) \<and>
      field doc ''Resources'' = Some (Obj rs) \<and>
      rs ''worker1TaskDefinition'' = Some r \<and>
      field r ''Properties'' = Some props \<and>
      refers props ''ghost'' \<and>
      dom rs = {''worker1TaskDefinition'', ''worker1''} \<and>
      ''ghost'' \<notin> dom rs"
    if run: "Build t app empty_walks =
      Inr (Obj [''Parameters'' \<mapsto> Obj Map.empty,
                ''Resources'' \<mapsto>
                  Obj [''worker1TaskDefinition'' \<mapsto> taskDefinitionResource cd [],
                       ''worker1'' \<mapsto> svc],
                ''Outputs'' \<mapsto> Obj Map.empty], None)"
      and props: "field (taskDefinitionResource cd []) ''Properties'' = Some props"
        "refers props ''ghost''"
    for t app cd svc props
  proof -
    let ?rs = "[''worker1TaskDefinition'' \<mapsto> taskDefinitionResource cd [], ''worker1'' \<mapsto> svc]"
    let ?doc = "Obj [''Parameters'' \<mapsto> Obj Map.empty, ''Resources'' \<mapsto> Obj ?rs,
                     ''Outputs'' \<mapsto> Obj Map.empty]"
    have "field ?doc ''Resources'' = Some (Obj ?rs)"
      by simp
    moreover have "?rs ''worker1TaskDefinition'' = Some (taskDefinitionResource cd [])"
      by simp
    moreover have "dom ?rs = {''worker1TaskDefinition'', ''worker1''}"
      by auto
    moreover have "''ghost'' \<notin> dom ?rs"
      by simp
    ultimately show ?thesis
      using run props by blast
  qed
  let ?cd1 = "ContainerDefinition tmpl labelled []"
  have "Build tmpl acme_labelled empty_walks =
      Inr (Obj [''Parameters'' \<mapsto> Obj Map.empty,
                ''Resources'' \<mapsto>
                  Obj [''worker1TaskDefinition'' \<mapsto> taskDefinitionResource ?cd1 [],
                       ''worker1'' \<mapsto> serviceResource tmpl labelled [] ''worker1TaskDefinition''],
                ''Outputs'' \<mapsto> Obj Map.empty], None)"
    by (simp add: Build_def acme_labelled_def empty_walks_def process_step_labelled
        task_and_service_def Let_def)
  moreover have "cd_DockerLabels ?cd1 ''Ref'' = Some ''ghost''"
    by (simp add: ContainerDefinition_def labelled_def)
  then obtain props1 where
    "field (taskDefinitionResource ?cd1 []) ''Properties'' = Some props1"
    "refers props1 ''ghost''"
    using refers_label by blast
  ultimately have first: "\<exists>doc rs r props.
      Build tmpl acme_labelled empty_walks = Inr (doc, None) \<and>
      field doc ''Resources'' = Some (Obj rs) \<and>
      rs ''worker1TaskDefinition'' = Some r \<and>
      field r ''Properties'' = Some props \<and>
      refers props ''ghost'' \<and>
      dom rs = {''worker1TaskDefinition'', ''worker1''} \<and>
      ''ghost'' \<notin> dom rs"
    by (rule shape)
  let ?cd2 = "ContainerDefinition tmpl_logs worker []"
  have "Build tmpl_logs acme_worker empty_walks =
      Inr (Obj [''Parameters'' \<mapsto> Obj Map.empty,
                ''Resources'' \<mapsto>
                  Obj [''worker1TaskDefinition'' \<mapsto> taskDefinitionResource ?cd2 [],
                       ''worker1'' \<mapsto> serviceResource tmpl_logs worker [] ''worker1TaskDefinition''],
                ''Outputs'' \<mapsto> Obj Map.empty], None)"
    by (simp add: Build_def acme_worker_def empty_walks_def process_step_worker
        task_and_service_def Let_def)
  moreover have "cd_LogConfiguration ?cd2
      = Some \<lparr> LogDriver = Some ''syslog'', Options = [''Ref'' \<mapsto> ''ghost''] \<rparr>"
    by (simp add: ContainerDefinition_def tmpl_logs_def)
  then have "\<exists>props. field (taskDefinitionResource ?cd2 []) ''Properties'' = Some props \<and>
                   refers props ''ghost''"
    by (rule refers_option) simp
  then obtain props2 where
    "field (taskDefinitionResource ?cd2 []) ''Properties'' = Some props2"
    "refers props2 ''ghost''"
    by blast
  ultimately have "\<exists>doc rs r props.
      Build tmpl_logs acme_worker empty_walks = Inr (doc, None) \<and>
      field doc ''Resources'' = Some (Obj rs) \<and>
      rs ''worker1TaskDefinition'' = Some r \<and>
      field r ''Properties'' = Some props \<and>
      refers props ''ghost'' \<and>
      dom rs = {''worker1TaskDefinition'', ''worker1''} \<and>
      ''ghost'' \<notin> dom rs"
    by (rule shape)
  with first show ?thesis
    by (rule conjI)
qed

subsection \<open>The DNS record\<close>

lemma not_dns [simp]:
  "field (instancePortResource t) ''Type'' \<noteq> Some (Str ''AWS::Route53::RecordSet'')"
  "field (loadBalancerResource sch sg sn ls p) ''Type'' \<noteq> Some (Str ''AWS::Route53::RecordSet'')"
  "field (taskDefinitionResource cd pms) ''Type'' \<noteq> Some (Str ''AWS::Route53::RecordSet'')"
  "field (serviceResource t p lbs td) ''Type'' \<noteq> Some (Str ''AWS::Route53::RecordSet'')"
  by (simp_all add: instancePortResource_def loadBalancerResource_fields
      taskDefinitionResource_Type serviceResource_fields)

text \<open>A turn stores a DNS record under no id but \<^verbatim>\<open>CNAME\<close>.\<close>

lemma dns_records_step:
  assumes "process_step t app p ord rs = Inr rs'"
    and "\<And>k. k \<in> dns_records rs \<Longrightarrow> k = ''CNAME''"
    and "k \<in> dns_records rs'"
  shows "k = ''CNAME''"
proof (cases "Exposure p")
  case None
  with assms(1,3) have "k \<in> dns_records rs"
    by (auto simp add: process_step_unexposed task_and_service_apply dns_records_def
        split: if_splits)
  then show ?thesis
    by (rule assms(2))
next
  case (Some e)
  from Some assms(1) obtain pms lbs cd' rs1 where
    ex: "expose t app p e (normalizeKey (Type p)) (ContainerDefinition t p ord) rs
           = Inr (pms, lbs, cd', rs1)"
    and rs': "rs' = task_and_service t p (normalizeKey (Type p)) cd' pms lbs rs1"
    by (rule process_step_exposed)
  from assms(3) have "k \<in> dns_records rs1"
    by (auto simp add: rs' task_and_service_apply dns_records_def split: if_splits)
  with expose_Inr(4) [OF ex] have "k = ''CNAME'' \<or> k \<in> dns_records rs"
    by (auto simp add: dns_records_def split: if_splits)
  then show ?thesis
    using assms(2) by blast
qed

lemma dns_records_loop:
  "Build_loop t app ps ords i rs = Inr rs' \<Longrightarrow>
   (\<And>k. k \<in> dns_records rs \<Longrightarrow> k = ''CNAME'') \<Longrightarrow>
   k \<in> dns_records rs' \<Longrightarrow> k = ''CNAME''"
proof (induction ps arbitrary: i rs)
  case Nil
  then show ?case by simp
next
  case (Cons p ps)
  from Cons.prems(1) obtain rs1 where
    step: "process_step t app p (ords i) rs = Inr rs1"
    and rest: "Build_loop t app ps ords (Suc i) rs1 = Inr rs'"
    by (auto split: sum.splits)
  show ?case
    using rest dns_records_step [OF step Cons.prems(2)] Cons.prems(3)
    by (rule Cons.IH)
qed

lemma web_record_cnameResource:
  "HostedZone t = Some zone \<Longrightarrow> zone_Id zone = Some zoneId \<Longrightarrow>
   zone_Name zone = Some zoneName \<Longrightarrow>
   web_record t app (cnameResource app zoneId zoneName ''webLoadBalancer'')"
  unfolding web_record_def cnameResource_def defaultCNAMETTL_def by blast

lemma web_record_is_dns:
  "web_record t app r \<Longrightarrow> field r ''Type'' = Some (Str ''AWS::Route53::RecordSet'')"
  by (auto simp add: web_record_def)

lemma expose_CNAME:
  assumes "expose t app p e key cd rs = Inr (pms, lbs, cd', rs')"
  shows "if Type p = ''web''
         then \<exists>zone zoneId zoneName.
                HostedZone t = Some zone \<and> zone_Id zone = Some zoneId \<and>
                zone_Name zone = Some zoneName \<and>
                rs' ''CNAME'' = Some (cnameResource app zoneId zoneName (key @ ''LoadBalancer''))
         else rs' ''CNAME'' = rs ''CNAME''"
  using assms
  by (auto simp add: expose_def Let_def split: if_splits option.splits)

text \<open>
  The id \<^verbatim>\<open>CNAME\<close> after a turn, when the key of the process is not \<^verbatim>\<open>CNAME\<close>: the
  record of the application if the process is an exposed \<^verbatim>\<open>web\<close>, and what it was
  before the turn otherwise.
\<close>

lemma cname_step:
  assumes "process_step t app p ord rs = Inr rs'" and "normalizeKey (Type p) \<noteq> ''CNAME''"
  shows "if Type p = ''web'' \<and> Exposure p \<noteq> None
         then \<exists>r. rs' ''CNAME'' = Some r \<and> web_record t app r
         else rs' ''CNAME'' = rs ''CNAME''"
proof (cases "Exposure p")
  case None
  with assms show ?thesis
    by (auto simp add: process_step_unexposed task_and_service_apply)
next
  case (Some e)
  from Some assms(1) obtain pms lbs cd' rs1 where
    ex: "expose t app p e (normalizeKey (Type p)) (ContainerDefinition t p ord) rs
           = Inr (pms, lbs, cd', rs1)"
    and rs': "rs' = task_and_service t p (normalizeKey (Type p)) cd' pms lbs rs1"
    by (rule process_step_exposed)
  have same: "rs' ''CNAME'' = rs1 ''CNAME''"
    using assms(2) by (simp add: rs' task_and_service_apply)
  show ?thesis
  proof (cases "Type p = ''web''")
    case True
    with expose_CNAME [OF ex] obtain zone zoneId zoneName where
      "HostedZone t = Some zone" "zone_Id zone = Some zoneId" "zone_Name zone = Some zoneName"
      "rs1 ''CNAME'' = Some (cnameResource app zoneId zoneName ''webLoadBalancer'')"
      by (auto simp add: normalizeKey_web)
    then show ?thesis
      using True Some same web_record_cnameResource by auto
  next
    case False
    with expose_CNAME [OF ex] same show ?thesis
      by simp
  qed
qed

text \<open>
  Whether some exposed \<^verbatim>\<open>web\<close> process has no process of key \<^verbatim>\<open>CNAME\<close> after it,
  when one more process is added at the end.
\<close>

lemma web_stands_snoc:
  "web_stands (ps @ [q]) \<longleftrightarrow>
     (Type q = ''web'' \<and> Exposure q \<noteq> None) \<or>
     (normalizeKey (Type q) \<noteq> ''CNAME'' \<and> web_stands ps)"
proof
  assume "web_stands (ps @ [q])"
  then obtain ps1 p ps2 where
    split: "ps @ [q] = ps1 @ p # ps2" and p: "Type p = ''web''" "Exposure p \<noteq> None"
    and later: "\<forall>q' \<in> set ps2. normalizeKey (Type q') \<noteq> ''CNAME''"
    unfolding web_stands_def by blast
  show "(Type q = ''web'' \<and> Exposure q \<noteq> None) \<or>
        (normalizeKey (Type q) \<noteq> ''CNAME'' \<and> web_stands ps)"
  proof (cases ps2 rule: rev_cases)
    case Nil
    with split have "q = p"
      by simp
    with p show ?thesis
      by simp
  next
    case (snoc ps2' y)
    with split have "ps @ [q] = (ps1 @ p # ps2') @ [y]"
      by simp
    then have "ps = ps1 @ p # ps2'" and "y = q"
      by simp_all
    moreover from later snoc have "\<forall>q' \<in> set ps2'. normalizeKey (Type q') \<noteq> ''CNAME''"
      and "normalizeKey (Type y) \<noteq> ''CNAME''"
      by simp_all
    ultimately show ?thesis
      using p unfolding web_stands_def by blast
  qed
next
  assume "(Type q = ''web'' \<and> Exposure q \<noteq> None) \<or>
          (normalizeKey (Type q) \<noteq> ''CNAME'' \<and> web_stands ps)"
  then show "web_stands (ps @ [q])"
  proof
    assume "Type q = ''web'' \<and> Exposure q \<noteq> None"
    then have "ps @ [q] = ps @ q # [] \<and> Type q = ''web'' \<and> Exposure q \<noteq> None \<and>
        (\<forall>q' \<in> set []. normalizeKey (Type q') \<noteq> ''CNAME'')"
      by simp
    then show ?thesis
      unfolding web_stands_def by blast
  next
    assume "normalizeKey (Type q) \<noteq> ''CNAME'' \<and> web_stands ps"
    then obtain ps1 p ps2 where "ps = ps1 @ p # ps2" "Type p = ''web''" "Exposure p \<noteq> None"
      "\<forall>q' \<in> set ps2. normalizeKey (Type q') \<noteq> ''CNAME''" "normalizeKey (Type q) \<noteq> ''CNAME''"
      unfolding web_stands_def by blast
    then have "ps @ [q] = ps1 @ p # (ps2 @ [q]) \<and> Type p = ''web'' \<and> Exposure p \<noteq> None \<and>
        (\<forall>q' \<in> set (ps2 @ [q]). normalizeKey (Type q') \<noteq> ''CNAME'')"
      by simp
    then show ?thesis
      unfolding web_stands_def by blast
  qed
qed

text \<open>
  The id \<^verbatim>\<open>CNAME\<close> after the loop: the record of the application if some exposed
  \<^verbatim>\<open>web\<close> process has no process of key \<^verbatim>\<open>CNAME\<close> after it; otherwise what it was
  before the loop, or the service of a process of key \<^verbatim>\<open>CNAME\<close>.
\<close>

lemma cname_loop:
  assumes "Build_loop t app ps ords i rs = Inr rs'"
  shows "if web_stands ps
         then \<exists>r. rs' ''CNAME'' = Some r \<and> web_record t app r
         else rs' ''CNAME'' = rs ''CNAME'' \<or>
              (\<exists>q lbs td. rs' ''CNAME'' = Some (serviceResource t q lbs td))"
  using assms
proof (induction ps arbitrary: rs' rule: rev_induct)
  case Nil
  then show ?case by (simp add: web_stands_def)
next
  case (snoc q ps)
  from snoc.prems obtain rs1 where
    loop: "Build_loop t app ps ords i rs = Inr rs1"
    and step: "process_step t app q (ords (i + length ps)) rs1 = Inr rs'"
    by (auto simp add: Build_loop_append split: sum.splits)
  note IH = snoc.IH [OF loop]
  show ?case
  proof (cases "normalizeKey (Type q) = ''CNAME''")
    case True
    then have "Type q \<noteq> ''web''"
      using normalizeKey_web by auto
    with True have "\<not> web_stands (ps @ [q])"
      unfolding web_stands_snoc by simp
    moreover from process_step_service [OF step] True
    have "\<exists>q lbs td. rs' ''CNAME'' = Some (serviceResource t q lbs td)"
      by auto
    ultimately show ?thesis
      by simp
  next
    case False
    note turn = cname_step [OF step False]
    show ?thesis
    proof (cases "Type q = ''web'' \<and> Exposure q \<noteq> None")
      case True
      then have "web_stands (ps @ [q])"
        unfolding web_stands_snoc by simp
      with turn True show ?thesis
        by simp
    next
      case no_web: False
      with False have "web_stands (ps @ [q]) \<longleftrightarrow> web_stands ps"
        unfolding web_stands_snoc by auto
      moreover from turn no_web have "rs' ''CNAME'' = rs1 ''CNAME''"
        by simp
      ultimately show ?thesis
        using IH by simp
    qed
  qed
qed

text \<open>The keys of the map after the loop: the ids that the turns write are added.\<close>

lemma Build_loop_dom:
  "Build_loop t app ps ords i rs = Inr rs' \<Longrightarrow>
   dom rs' = dom rs \<union> (\<Union>p \<in> set ps. written_ids p)"
proof (induction ps arbitrary: i rs)
  case Nil
  then show ?case by simp
next
  case (Cons p ps)
  from Cons.prems obtain rs1 where
    step: "process_step t app p (ords i) rs = Inr rs1"
    and rest: "Build_loop t app ps ords (Suc i) rs1 = Inr rs'"
    by (auto split: sum.splits)
  from Cons.IH [OF rest] process_step_dom [OF step] show ?case
    by auto
qed

lemma written_ids_web:
  "Type p = ''web'' \<Longrightarrow> Exposure p \<noteq> None \<Longrightarrow> ''webLoadBalancer'' \<in> written_ids p"
  by (auto simp add: written_ids_def normalizeKey_web)

text \<open>
  Claim C5, as the source has it. The record is stored under the id \<^verbatim>\<open>CNAME\<close> by the
  turn of an exposed process named \<^verbatim>\<open>web\<close>, and the service of a process is stored
  under the key of the process: a later process whose key is \<^verbatim>\<open>CNAME\<close> replaces the
  record. A document that \<^verbatim>\<open>Build\<close> returns holds a DNS record exactly when some
  process is named \<^verbatim>\<open>web\<close>, is exposed, and has no process of key \<^verbatim>\<open>CNAME\<close> after
  it. The record is then the only one, stored under \<^verbatim>\<open>CNAME\<close>: the CNAME record of
  the application (\<open>web_record\<close>), whose reference \<^verbatim>\<open>webLoadBalancer\<close> is an id of
  the document. That id holds the load balancer of an exposed process \<open>p\<close> named
  \<^verbatim>\<open>web\<close> whenever no process after \<open>p\<close> writes under \<^verbatim>\<open>webLoadBalancer\<close>.
\<close>

theorem dns_record_of_web:
  assumes "Build t app ords = Inr (doc, err)"
    and "field doc ''Resources'' = Some (Obj rs)"
  shows "(dns_records rs \<noteq> {} \<longleftrightarrow>
            (\<exists>ps1 p ps2.
               Processes app = ps1 @ p # ps2 \<and> Type p = ''web'' \<and> Exposure p \<noteq> None \<and>
               (\<forall>q \<in> set ps2. normalizeKey (Type q) \<noteq> ''CNAME''))) \<and>
         (dns_records rs \<noteq> {} \<longrightarrow>
            dns_records rs = {''CNAME''} \<and>
            (\<exists>r. rs ''CNAME'' = Some r \<and> web_record t app r) \<and>
            ''webLoadBalancer'' \<in> dom rs) \<and>
         (Processes app = ps1 @ p # ps2 \<longrightarrow> Type p = ''web'' \<longrightarrow> Exposure p = Some e \<longrightarrow>
          (\<forall>q \<in> set ps2. ''webLoadBalancer'' \<notin> written_ids q) \<longrightarrow>
            rs ''webLoadBalancer'' = Some (loadBalancer_of t p e))"
proof -
  note loop = Build_resources [OF assms]
  have only: "k = ''CNAME''" if "k \<in> dns_records rs" for k
    using loop _ that by (rule dns_records_loop) (simp add: dns_records_def)
  note cname = cname_loop [OF loop]
  have stands: "dns_records rs = {''CNAME''} \<and>
      (\<exists>r. rs ''CNAME'' = Some r \<and> web_record t app r) \<and> ''webLoadBalancer'' \<in> dom rs"
    if web: "web_stands (Processes app)"
  proof -
    from cname web obtain r where r: "rs ''CNAME'' = Some r" "web_record t app r"
      by auto
    then have "''CNAME'' \<in> dns_records rs"
      by (auto simp add: dns_records_def dest: web_record_is_dns)
    with only have "dns_records rs = {''CNAME''}"
      by blast
    moreover from web obtain ps1 p ps2 where "Processes app = ps1 @ p # ps2"
      "Type p = ''web''" "Exposure p \<noteq> None"
      unfolding web_stands_def by blast
    then have "p \<in> set (Processes app)" "''webLoadBalancer'' \<in> written_ids p"
      by (simp_all add: written_ids_web)
    then have "''webLoadBalancer'' \<in> dom rs"
      using Build_loop_dom [OF loop] by auto
    ultimately show ?thesis
      using r by blast
  qed
  have falls: "dns_records rs = {}" if "\<not> web_stands (Processes app)"
  proof -
    from cname that
    have "rs ''CNAME'' = None \<or> (\<exists>q lbs td. rs ''CNAME'' = Some (serviceResource t q lbs td))"
      by simp
    then have "''CNAME'' \<notin> dns_records rs"
      by (auto simp add: dns_records_def)
    with only show ?thesis
      by blast
  qed
  have lb: "rs ''webLoadBalancer'' = Some (loadBalancer_of t p e)"
    if ps: "Processes app = ps1 @ p # ps2" and p: "Type p = ''web''" "Exposure p = Some e"
      and free: "\<forall>q \<in> set ps2. ''webLoadBalancer'' \<notin> written_ids q"
  proof -
    from Build_last_write [OF assms ps] obtain rs0 rs1 where
      step: "process_step t app p (ords (length ps1)) rs0 = Inr rs1"
      and later: "\<And>k. \<forall>q \<in> set ps2. k \<notin> written_ids q \<Longrightarrow> rs k = rs1 k"
      by blast
    from process_step_loadBalancer [OF p(2) step]
    have "rs1 ''webLoadBalancer'' = Some (loadBalancer_of t p e)"
      by (simp add: p(1) normalizeKey_web)
    with later [OF free] show ?thesis
      by simp
  qed
  from stands falls have "dns_records rs \<noteq> {} \<longleftrightarrow> web_stands (Processes app)"
    by auto
  with stands lb show ?thesis
    unfolding web_stands_def by blast
qed

lemma written_ids_worker_web: "''webLoadBalancer'' \<notin> written_ids worker"
  by (simp add: written_ids_worker)

lemma normalizeKey_worker_CNAME: "normalizeKey (Type worker) \<noteq> ''CNAME''"
  by (simp add: worker_def normalizeKey_worker)

theorem dns_record_of_web_witness:
  "\<exists>doc rs r.
     Build tmpl acme empty_walks = Inr (doc, None) \<and>
     field doc ''Resources'' = Some (Obj rs) \<and>
     Processes acme = [] @ web # [worker] \<and>
     Type web = ''web'' \<and>
     Exposure web = Some \<lparr> External = True, ExposureType = HTTPExposure \<rparr> \<and>
     normalizeKey (Type worker) \<noteq> ''CNAME'' \<and>
     ''webLoadBalancer'' \<notin> written_ids worker \<and>
     dns_records rs = {''CNAME''} \<and>
     rs ''CNAME'' = Some r \<and> web_record tmpl acme r \<and>
     r = Obj [''Type'' \<mapsto> Str ''AWS::Route53::RecordSet'',
              ''Properties'' \<mapsto>
                Obj [''HostedZoneId'' \<mapsto> Str ''Z3DG6IL3SJCGPX'',
                     ''Name'' \<mapsto> Str ''acme-inc.empire.'',
                     ''Type'' \<mapsto> Str ''CNAME'',
                     ''TTL'' \<mapsto> Num 60,
                     ''ResourceRecords'' \<mapsto> Arr [StrMap [''Ref'' \<mapsto> ''webLoadBalancer'']]]] \<and>
     ''webLoadBalancer'' \<in> dom rs \<and>
     rs ''webLoadBalancer''
       = Some (loadBalancer_of tmpl web \<lparr> External = True, ExposureType = HTTPExposure \<rparr>)"
proof -
  obtain doc where run: "Build tmpl acme empty_walks = Inr (doc, None)"
    using Build_acme_returns by blast
  obtain rs where rs: "field doc ''Resources'' = Some (Obj rs)"
    using Build_has_resources [OF run] by blast
  have ps: "Processes acme = [] @ web # [worker]"
    by (simp add: acme_def)
  have web: "Type web = ''web''"
    "Exposure web = Some \<lparr> External = True, ExposureType = HTTPExposure \<rparr>"
    by (simp_all add: web_def)
  note worker = written_ids_worker_web normalizeKey_worker_CNAME
  have stands: "\<exists>ps1 p ps2.
      Processes acme = ps1 @ p # ps2 \<and> Type p = ''web'' \<and> Exposure p \<noteq> None \<and>
      (\<forall>q \<in> set ps2. normalizeKey (Type q) \<noteq> ''CNAME'')"
    using ps web worker(2)
    by (intro exI [of _ "[]"] exI [of _ web] exI [of _ "[worker]"]) simp
  have free: "\<forall>q \<in> set [worker]. ''webLoadBalancer'' \<notin> written_ids q"
    using worker(1) by simp
  note inst = dns_record_of_web [OF run rs,
      of "[]" web "[worker]" "\<lparr> External = True, ExposureType = HTTPExposure \<rparr>"]
  note exactly = inst [THEN conjunct1]
  note then_one = inst [THEN conjunct2, THEN conjunct1]
  note balancer = inst [THEN conjunct2, THEN conjunct2, THEN mp, THEN mp, THEN mp, THEN mp]
  from stands have some: "dns_records rs \<noteq> {}"
    by (rule exactly [THEN iffD2])
  with then_one have "dns_records rs = {''CNAME''} \<and>
      (\<exists>r. rs ''CNAME'' = Some r \<and> web_record tmpl acme r) \<and> ''webLoadBalancer'' \<in> dom rs"
    by (rule mp)
  then obtain r where
    r: "dns_records rs = {''CNAME''}" "rs ''CNAME'' = Some r" "web_record tmpl acme r"
      "''webLoadBalancer'' \<in> dom rs"
    by blast
  from ps web free
  have lb: "rs ''webLoadBalancer''
       = Some (loadBalancer_of tmpl web \<lparr> External = True, ExposureType = HTTPExposure \<rparr>)"
    by (rule balancer)
  from r(3) have "r = Obj [''Type'' \<mapsto> Str ''AWS::Route53::RecordSet'',
              ''Properties'' \<mapsto>
                Obj [''HostedZoneId'' \<mapsto> Str ''Z3DG6IL3SJCGPX'',
                     ''Name'' \<mapsto> Str ''acme-inc.empire.'',
                     ''Type'' \<mapsto> Str ''CNAME'',
                     ''TTL'' \<mapsto> Num 60,
                     ''ResourceRecords'' \<mapsto> Arr [StrMap [''Ref'' \<mapsto> ''webLoadBalancer'']]]]"
    by (auto simp add: web_record_def tmpl_def acme_def)
  with run rs ps web worker r lb show ?thesis
    by blast
qed

lemma process_step_weblb:
  "process_step t app weblb [] rs =
     Inr (task_and_service t weblb ''webLoadBalancer'' (ContainerDefinition t weblb []) [] [] rs)"
  by (simp add: process_step_unexposed weblb_def worker_def normalizeKey_def alnum_def)

text \<open>
  Claim C5 as the spec states it fails on an application whose \<^verbatim>\<open>web\<close> process is
  exposed and is followed by a process named \<^verbatim>\<open>CNAME\<close>: the service of the latter
  replaces the record, and the document holds no DNS record at all. And when the exposed
  \<^verbatim>\<open>web\<close> process is followed by a process named \<^verbatim>\<open>webLoadBalancer\<close>, the document
  holds the record, but the id \<^verbatim>\<open>webLoadBalancer\<close> that the record refers to holds the
  service of the second process, and the document holds no load balancer.
\<close>

theorem dns_record_counterexample:
  "web \<in> set (Processes acme_cname) \<and> Type web = ''web'' \<and> Exposure web \<noteq> None \<and>
   \<not> isl (Build tmpl acme_cname empty_walks) \<and>
   resources_of (Build tmpl acme_cname empty_walks) ''CNAME''
     = Some (serviceResource tmpl cname [] ''CNAMETaskDefinition'') \<and>
   dns_records (resources_of (Build tmpl acme_cname empty_walks)) = {} \<and>
   web \<in> set (Processes acme_weblb) \<and>
   \<not> isl (Build tmpl acme_weblb empty_walks) \<and>
   dns_records (resources_of (Build tmpl acme_weblb empty_walks)) = {''CNAME''} \<and>
   resources_of (Build tmpl acme_weblb empty_walks) ''CNAME''
     = Some (cnameResource acme_weblb ''Z3DG6IL3SJCGPX'' ''empire.'' ''webLoadBalancer'') \<and>
   resources_of (Build tmpl acme_weblb empty_walks) ''webLoadBalancer''
     = Some (serviceResource tmpl weblb [] ''webLoadBalancerTaskDefinition'') \<and>
   load_balancers (resources_of (Build tmpl acme_weblb empty_walks)) = {}"
proof -
  let ?rs = "resources_of (Build tmpl acme_cname empty_walks)"
  have "k \<notin> dns_records ?rs" for k
    by (simp add: Build_def resources_of_def acme_cname_def empty_walks_def
        process_step_web process_step_cname task_and_service_apply dns_records_def)
  then have c1: "dns_records ?rs = {}"
    by blast
  have c2: "\<not> isl (Build tmpl acme_cname empty_walks)"
    by (simp add: Build_def acme_cname_def empty_walks_def process_step_web process_step_cname)
  have c3: "?rs ''CNAME'' = Some (serviceResource tmpl cname [] ''CNAMETaskDefinition'')"
    by (simp add: Build_def resources_of_def acme_cname_def empty_walks_def
        process_step_web process_step_cname task_and_service_apply)
  let ?rs' = "resources_of (Build tmpl acme_weblb empty_walks)"
  have w1: "\<not> isl (Build tmpl acme_weblb empty_walks)"
    by (simp add: Build_def acme_weblb_def empty_walks_def process_step_web process_step_weblb)
  have w2: "?rs' ''CNAME''
      = Some (cnameResource acme_weblb ''Z3DG6IL3SJCGPX'' ''empire.'' ''webLoadBalancer'')"
    by (simp add: Build_def resources_of_def acme_weblb_def empty_walks_def
        process_step_web process_step_weblb task_and_service_apply)
  have w3: "?rs' ''webLoadBalancer''
      = Some (serviceResource tmpl weblb [] ''webLoadBalancerTaskDefinition'')"
    by (simp add: Build_def resources_of_def acme_weblb_def empty_walks_def
        process_step_web process_step_weblb task_and_service_apply)
  have "k \<in> dns_records ?rs' \<longleftrightarrow> k = ''CNAME''" for k
    by (simp add: Build_def resources_of_def acme_weblb_def empty_walks_def
        process_step_web process_step_weblb task_and_service_apply dns_records_def
        cnameResource_def)
  then have w4: "dns_records ?rs' = {''CNAME''}"
    by blast
  have "k \<notin> load_balancers ?rs'" for k
    by (simp add: Build_def resources_of_def acme_weblb_def empty_walks_def
        process_step_web process_step_weblb task_and_service_apply load_balancers_def
        serviceResource_fields taskDefinitionResource_Type instancePortResource_def
        cnameResource_def)
  then have w5: "load_balancers ?rs' = {}"
    by blast
  from c1 c2 c3 w1 w2 w3 w4 w5 show ?thesis
    by (simp add: acme_cname_def acme_weblb_def web_def)
qed

subsection \<open>The listeners of an exposed process\<close>

lemma normalizeKey_api: "normalizeKey ''api'' = ''api''"
  by (simp add: normalizeKey_def alnum_def)

lemma process_step_api:
  "process_step tmpl app api [] rs =
     Inr (task_and_service tmpl api ''api''
            ((ContainerDefinition tmpl api [])\<lparr>cd_Environment := [(''PORT'', ''8080'')]\<rparr>)
            [Obj [''ContainerPort'' \<mapsto> Num 8080,
                  ''HostPort'' \<mapsto>
                    StrsMap [''Fn::GetAtt'' \<mapsto> [''api8080InstancePort'', ''InstancePort'']]]]
            [Obj [''ContainerName'' \<mapsto> Str ''api'',
                  ''ContainerPort'' \<mapsto> Num 8080,
                  ''LoadBalancerName'' \<mapsto> StrMap [''Ref'' \<mapsto> ''apiLoadBalancer'']]]
            (rs(''api8080InstancePort'' \<mapsto> instancePortResource tmpl,
                ''apiLoadBalancer'' \<mapsto>
                  loadBalancerResource ''internal'' ''sg-e7387381'' [''subnet-bb01c4cd'']
                    (make_listeners \<lparr> External = False, ExposureType = HTTPSExposure ''cert-1'' \<rparr>
                       ''api8080InstancePort'') api)))"
proof -
  have "Type api = ''api''"
    and "Exposure api = Some \<lparr> External = False, ExposureType = HTTPSExposure ''cert-1'' \<rparr>"
    and "InternalSecurityGroupID tmpl = ''sg-e7387381''"
    and "InternalSubnetIDs tmpl = [''subnet-bb01c4cd'']"
    and "cd_Environment (ContainerDefinition tmpl api []) = []"
    by (simp_all add: api_def tmpl_def ContainerDefinition_def)
  then show ?thesis
    by (simp add: process_step_def expose_def Let_def normalizeKey_api fmt_d_8080
        ContainerPort_def schemeInternal_def)
qed


lemma Build_acme_api_returns: "\<exists>doc. Build tmpl acme_api empty_walks = Inr (doc, None)"
  by (simp add: Build_def acme_api_def empty_walks_def process_step_api process_step_worker)




subsection \<open>The role of a service\<close>

lemma not_service [simp]:
  "field (instancePortResource t) ''Type'' \<noteq> Some (Str ''AWS::ECS::Service'')"
  "field (loadBalancerResource sch sg sn ls p) ''Type'' \<noteq> Some (Str ''AWS::ECS::Service'')"
  "field (taskDefinitionResource cd pms) ''Type'' \<noteq> Some (Str ''AWS::ECS::Service'')"
  "field (cnameResource app zi zn lb) ''Type'' \<noteq> Some (Str ''AWS::ECS::Service'')"
  by (simp_all add: instancePortResource_def loadBalancerResource_fields
      taskDefinitionResource_Type cnameResource_def)

text \<open>A service that the map holds after a turn was there before, or the turn built it.\<close>

lemma service_step:
  assumes "process_step t app p ord rs = Inr rs'"
    and "rs' k = Some r" and "field r ''Type'' = Some (Str ''AWS::ECS::Service'')"
  shows "rs k = Some r \<or> (\<exists>lbs td. r = serviceResource t p lbs td)"
proof (cases "Exposure p")
  case None
  with assms(1)
  have rs': "rs' = task_and_service t p (normalizeKey (Type p)) (ContainerDefinition t p ord)
      [] [] rs"
    by (simp add: process_step_unexposed)
  from assms(2,3)
  have "rs k = Some r \<or> r = serviceResource t p [] (normalizeKey (Type p) @ ''TaskDefinition'')"
    by (auto simp add: rs' task_and_service_apply split: if_splits)
  then show ?thesis
    by blast
next
  case (Some e)
  from Some assms(1) obtain pms lbs cd' rs1 where
    ex: "expose t app p e (normalizeKey (Type p)) (ContainerDefinition t p ord) rs
           = Inr (pms, lbs, cd', rs1)"
    and rs': "rs' = task_and_service t p (normalizeKey (Type p)) cd' pms lbs rs1"
    by (rule process_step_exposed)
  from assms(2,3)
  have "rs1 k = Some r \<or> r = serviceResource t p lbs (normalizeKey (Type p) @ ''TaskDefinition'')"
    by (auto simp add: rs' task_and_service_apply split: if_splits)
  moreover have "rs k = Some r" if "rs1 k = Some r"
    using expose_Inr(4) [OF ex] assms(3) that by (auto split: if_splits)
  ultimately show ?thesis
    by blast
qed

lemma service_loop:
  assumes "Build_loop t app ps ords i rs = Inr rs'"
    and "rs' k = Some r" and "field r ''Type'' = Some (Str ''AWS::ECS::Service'')"
  shows "rs k = Some r \<or> (\<exists>q lbs td. q \<in> set ps \<and> r = serviceResource t q lbs td)"
  using assms(1)
proof (induction ps arbitrary: i rs)
  case Nil
  with assms(2) show ?case by simp
next
  case (Cons p ps)
  from Cons.prems obtain rs1 where
    step: "process_step t app p (ords i) rs = Inr rs1"
    and rest: "Build_loop t app ps ords (Suc i) rs1 = Inr rs'"
    by (auto split: sum.splits)
  from Cons.IH [OF rest] show ?case
  proof
    assume "rs1 k = Some r"
    from service_step [OF step this assms(3)] show ?thesis
      by auto
  next
    assume "\<exists>q lbs td. q \<in> set ps \<and> r = serviceResource t q lbs td"
    then show ?thesis
      by auto
  qed
qed

lemma service_Build:
  assumes "Build t app ords = Inr (doc, err)"
    and "field doc ''Resources'' = Some (Obj rs)"
    and "rs k = Some r" and "field r ''Type'' = Some (Str ''AWS::ECS::Service'')"
  shows "\<exists>q lbs td. q \<in> set (Processes app) \<and> r = serviceResource t q lbs td"
  using service_loop [OF Build_resources [OF assms(1,2)] assms(3,4)] by simp

lemma process_step_api2:
  "process_step t app api2 [] rs =
     Inr (task_and_service t api2 ''api'' (ContainerDefinition t api2 []) [] [] rs)"
  by (simp add: process_step_unexposed api2_def worker_def normalizeKey_def alnum_def)

text \<open>
  Claim C9, as the source has it. In a document that \<^verbatim>\<open>Build\<close> returns, the properties
  of every service hold the key \<^verbatim>\<open>Role\<close> exactly when the list of load balancers of
  that service is non-empty; the role is then the service role of the template. The
  service of a process is stored under the key of the process, and a later turn that
  writes under the same id replaces it. For every process \<open>p\<close> of the application such
  that no process after \<open>p\<close> writes under the key of \<open>p\<close>, that id holds the service of
  \<open>p\<close> (its metadata carry the name of \<open>p\<close>): its list of load balancers is non-empty
  exactly when \<open>p\<close> is exposed, so that it has the role exactly when \<open>p\<close> is exposed,
  and no \<^verbatim>\<open>Role\<close> when \<open>p\<close> is not.
\<close>

theorem service_role_in_document:
  assumes "Build t app ords = Inr (doc, err)"
    and "field doc ''Resources'' = Some (Obj rs)"
  shows "(rs k = Some r \<longrightarrow> field r ''Type'' = Some (Str ''AWS::ECS::Service'') \<longrightarrow>
          (\<exists>props lbs.
             field r ''Properties'' = Some props \<and>
             field props ''LoadBalancers'' = Some (Arr lbs) \<and>
             (field props ''Role'' \<noteq> None \<longleftrightarrow> lbs \<noteq> []) \<and>
             (lbs \<noteq> [] \<longrightarrow> field props ''Role'' = Some (Str (ServiceRole t))))) \<and>
         (Processes app = ps1 @ p # ps2 \<longrightarrow>
          (\<forall>q \<in> set ps2. normalizeKey (Type p) \<notin> written_ids q) \<longrightarrow>
          (\<exists>svc props lbs.
             rs (normalizeKey (Type p)) = Some svc \<and>
             field svc ''Type'' = Some (Str ''AWS::ECS::Service'') \<and>
             field svc ''Metadata'' = Some (Metadata (Type p)) \<and>
             field svc ''Properties'' = Some props \<and>
             field props ''LoadBalancers'' = Some (Arr lbs) \<and>
             (lbs \<noteq> [] \<longleftrightarrow> Exposure p \<noteq> None) \<and>
             (field props ''Role'' \<noteq> None \<longleftrightarrow> lbs \<noteq> []) \<and>
             (lbs \<noteq> [] \<longrightarrow> field props ''Role'' = Some (Str (ServiceRole t)))))"
proof (intro conjI impI)
  assume "rs k = Some r" and "field r ''Type'' = Some (Str ''AWS::ECS::Service'')"
  with assms obtain q lbs td where r: "r = serviceResource t q lbs td"
    using service_Build by blast
  obtain props where "field (serviceResource t q lbs td) ''Properties'' = Some props"
    "field props ''LoadBalancers'' = Some (Arr lbs)"
    "field props ''Role'' = (if lbs \<noteq> [] then Some (Str (ServiceRole t)) else None)"
    using serviceResource_fields(3) by blast
  then show "\<exists>props lbs.
             field r ''Properties'' = Some props \<and>
             field props ''LoadBalancers'' = Some (Arr lbs) \<and>
             (field props ''Role'' \<noteq> None \<longleftrightarrow> lbs \<noteq> []) \<and>
             (lbs \<noteq> [] \<longrightarrow> field props ''Role'' = Some (Str (ServiceRole t)))"
    unfolding r by (intro exI [of _ props] exI [of _ lbs]) auto
next
  let ?key = "normalizeKey (Type p)"
  assume ps: "Processes app = ps1 @ p # ps2"
    and free: "\<forall>q \<in> set ps2. ?key \<notin> written_ids q"
  from Build_last_write [OF assms ps] obtain rs0 rs1 where
    step: "process_step t app p (ords (length ps1)) rs0 = Inr rs1"
    and later: "\<And>k. \<forall>q \<in> set ps2. k \<notin> written_ids q \<Longrightarrow> rs k = rs1 k"
    by blast
  from process_step_service [OF step] obtain lbs where
    svc: "rs1 ?key = Some (serviceResource t p lbs (?key @ ''TaskDefinition''))"
    and lbs: "lbs \<noteq> [] \<longleftrightarrow> Exposure p \<noteq> None"
    by blast
  from later [OF free] svc
  have rs: "rs ?key = Some (serviceResource t p lbs (?key @ ''TaskDefinition''))"
    by simp
  obtain props where "field (serviceResource t p lbs (?key @ ''TaskDefinition'')) ''Properties''
      = Some props"
    "field props ''LoadBalancers'' = Some (Arr lbs)"
    "field props ''Role'' = (if lbs \<noteq> [] then Some (Str (ServiceRole t)) else None)"
    using serviceResource_fields(3) by blast
  with rs lbs serviceResource_fields(1,2) [of t p lbs "?key @ ''TaskDefinition''"]
  show "\<exists>svc props lbs.
             rs ?key = Some svc \<and>
             field svc ''Type'' = Some (Str ''AWS::ECS::Service'') \<and>
             field svc ''Metadata'' = Some (Metadata (Type p)) \<and>
             field svc ''Properties'' = Some props \<and>
             field props ''LoadBalancers'' = Some (Arr lbs) \<and>
             (lbs \<noteq> [] \<longleftrightarrow> Exposure p \<noteq> None) \<and>
             (field props ''Role'' \<noteq> None \<longleftrightarrow> lbs \<noteq> []) \<and>
             (lbs \<noteq> [] \<longrightarrow> field props ''Role'' = Some (Str (ServiceRole t)))"
    by (intro exI [of _ "serviceResource t p lbs (?key @ ''TaskDefinition'')"]
        exI [of _ props] exI [of _ lbs]) auto
qed

theorem service_role_in_document_witness:
  "\<exists>doc rs svc props lbs wsvc wprops.
     Build tmpl acme_api empty_walks = Inr (doc, None) \<and>
     field doc ''Resources'' = Some (Obj rs) \<and>
     Processes acme_api = [] @ api # [worker] \<and>
     ''api'' \<notin> written_ids worker \<and>
     Exposure api \<noteq> None \<and>
     rs ''api'' = Some svc \<and>
     field svc ''Type'' = Some (Str ''AWS::ECS::Service'') \<and>
     field svc ''Properties'' = Some props \<and>
     field props ''LoadBalancers'' = Some (Arr lbs) \<and>
     lbs \<noteq> [] \<and>
     field props ''Role'' = Some (Str ''ecsServiceRole'') \<and>
     Processes acme_api = [api] @ worker # [] \<and>
     Exposure worker = None \<and>
     rs ''worker1'' = Some wsvc \<and>
     field wsvc ''Type'' = Some (Str ''AWS::ECS::Service'') \<and>
     field wsvc ''Properties'' = Some wprops \<and>
     field wprops ''LoadBalancers'' = Some (Arr []) \<and>
     field wprops ''Role'' = None"
proof -
  obtain doc where run: "Build tmpl acme_api empty_walks = Inr (doc, None)"
    using Build_acme_api_returns by blast
  obtain rs where rs: "field doc ''Resources'' = Some (Obj rs)"
    using Build_has_resources [OF run] by blast
  have ps: "Processes acme_api = [] @ api # [worker]" "Processes acme_api = [api] @ worker # []"
    by (simp_all add: acme_api_def)
  have key: "normalizeKey (Type api) = ''api''" "normalizeKey (Type worker) = ''worker1''"
    by (simp_all add: api_def worker_def normalizeKey_api normalizeKey_worker)
  have e: "Exposure api \<noteq> None" "Exposure worker = None"
    by (simp_all add: api_def worker_def)
  have role: "ServiceRole tmpl = ''ecsServiceRole''"
    by (simp add: tmpl_def)
  have free: "''api'' \<notin> written_ids worker"
    by (simp add: written_ids_worker)
  from service_role_in_document [OF run rs, of _ _ "[]" api "[worker]", THEN conjunct2]
    ps(1) free e(1)
  obtain svc props lbs where api: "rs ''api'' = Some svc"
    "field svc ''Type'' = Some (Str ''AWS::ECS::Service'')"
    "field svc ''Properties'' = Some props"
    "field props ''LoadBalancers'' = Some (Arr lbs)" "lbs \<noteq> []"
    "field props ''Role'' = Some (Str ''ecsServiceRole'')"
    by (auto simp add: key role)
  from service_role_in_document [OF run rs, of _ _ "[api]" worker "[]", THEN conjunct2]
    ps(2) e(2)
  obtain wsvc wprops where worker: "rs ''worker1'' = Some wsvc"
    "field wsvc ''Type'' = Some (Str ''AWS::ECS::Service'')"
    "field wsvc ''Properties'' = Some wprops"
    "field wprops ''LoadBalancers'' = Some (Arr [])"
    "field wprops ''Role'' = None"
    by (auto simp add: key)
  from run rs ps free e api worker show ?thesis
    by blast
qed

text \<open>
  Claim C9 as the spec states it fails on an application whose exposed process
  \<^verbatim>\<open>api\<close> is followed by the unexposed process \<^verbatim>\<open>a-pi\<close>, which has the same key:
  the one service of the document, under the id \<^verbatim>\<open>api\<close>, is the service of the second
  process, with no load balancer and no \<^verbatim>\<open>Role\<close>; the exposed process has no service
  that carries the role.
\<close>

theorem service_role_counterexample:
  "api \<in> set (Processes acme_api2) \<and> Exposure api \<noteq> None \<and>
   normalizeKey (Type api) = ''api'' \<and>
   \<not> isl (Build tmpl acme_api2 empty_walks) \<and>
   dom (resources_of (Build tmpl acme_api2 empty_walks))
     = {''api8080InstancePort'', ''apiLoadBalancer'', ''apiTaskDefinition'', ''api''} \<and>
   (\<exists>props.
      resources_of (Build tmpl acme_api2 empty_walks) ''api''
        = Some (serviceResource tmpl api2 [] ''apiTaskDefinition'') \<and>
      field (serviceResource tmpl api2 [] ''apiTaskDefinition'') ''Metadata''
        = Some (Metadata ''a-pi'') \<and>
      field (serviceResource tmpl api2 [] ''apiTaskDefinition'') ''Properties'' = Some props \<and>
      field props ''LoadBalancers'' = Some (Arr []) \<and>
      field props ''Role'' = None)"
proof -
  let ?rs = "resources_of (Build tmpl acme_api2 empty_walks)"
  have run: "Build tmpl acme_api2 empty_walks =
      Inr (Obj [''Parameters'' \<mapsto> Obj Map.empty,
                ''Resources'' \<mapsto> Obj ?rs,
                ''Outputs'' \<mapsto> Obj Map.empty], None)"
    by (simp add: Build_def resources_of_def acme_api2_def empty_walks_def
        process_step_api process_step_api2)
  have rs: "?rs = task_and_service tmpl api2 ''api'' (ContainerDefinition tmpl api2 []) [] []
      (task_and_service tmpl api ''api''
            ((ContainerDefinition tmpl api [])\<lparr>cd_Environment := [(''PORT'', ''8080'')]\<rparr>)
            [Obj [''ContainerPort'' \<mapsto> Num 8080,
                  ''HostPort'' \<mapsto>
                    StrsMap [''Fn::GetAtt'' \<mapsto> [''api8080InstancePort'', ''InstancePort'']]]]
            [Obj [''ContainerName'' \<mapsto> Str ''api'',
                  ''ContainerPort'' \<mapsto> Num 8080,
                  ''LoadBalancerName'' \<mapsto> StrMap [''Ref'' \<mapsto> ''apiLoadBalancer'']]]
            (Map.empty(''api8080InstancePort'' \<mapsto> instancePortResource tmpl,
                ''apiLoadBalancer'' \<mapsto>
                  loadBalancerResource ''internal'' ''sg-e7387381'' [''subnet-bb01c4cd'']
                    (make_listeners \<lparr> External = False, ExposureType = HTTPSExposure ''cert-1'' \<rparr>
                       ''api8080InstancePort'') api)))"
    by (simp add: Build_def resources_of_def acme_api2_def empty_walks_def
        process_step_api process_step_api2)
  have dom: "dom ?rs = {''api8080InstancePort'', ''apiLoadBalancer'', ''apiTaskDefinition'', ''api''}"
    unfolding rs by (auto simp add: task_and_service_def Let_def)
  have svc: "?rs ''api'' = Some (serviceResource tmpl api2 [] ''apiTaskDefinition'')"
    unfolding rs by (simp add: task_and_service_apply)
  have meta: "field (serviceResource tmpl api2 [] ''apiTaskDefinition'') ''Metadata''
        = Some (Metadata ''a-pi'')"
    by (simp add: serviceResource_fields(2) api2_def)
  obtain props where
    "field (serviceResource tmpl api2 [] ''apiTaskDefinition'') ''Properties'' = Some props"
    "field props ''LoadBalancers'' = Some (Arr [])"
    "field props ''Role'' = None"
    using serviceResource_fields(3) [of tmpl api2 "[]" "''apiTaskDefinition''"] by auto
  moreover have "\<not> isl (Build tmpl acme_api2 empty_walks)"
    by (subst run) simp
  moreover have "api \<in> set (Processes acme_api2)" "Exposure api \<noteq> None"
    "normalizeKey (Type api) = ''api''"
    by (simp_all add: acme_api2_def api_def normalizeKey_api)
  ultimately show ?thesis
    using dom svc meta by blast
qed

end
